theory Spec2Isabelle
  imports Main "HOL-Library.Word"
begin

unbundle bit_operations_syntax

section \<open>The session and transport core of go-ora (v2/network/session.go)\<close>

text \<open>
  A shallow embedding of \<^verbatim>\<open>session.go\<close>. Every method of \<^verbatim>\<open>*Session\<close> becomes a function
  that takes the session record and returns the updated one. A Go result \<^verbatim>\<open>(T, error)\<close> is
  the pair of the value and an \<open>error option\<close> (\<open>None\<close> is \<^verbatim>\<open>nil\<close>), as Go returns both; a
  run-time panic is the separate outcome \<open>Abort\<close>. Loops whose length is decided by the
  peer are \<^theory_text>\<open>partial_function (option)\<close>: \<open>None\<close> means that the call does not return.

  Go's \<^verbatim>\<open>int\<close> (lengths, indices) is \<open>int\<close>, and the sum of the cursor and a requested
  size, which can come from the peer, wraps around at 64 bits (\<open>wrap64\<close>); \<^verbatim>\<open>int64\<close> and
  \<^verbatim>\<open>uint64\<close> values that are encoded are \<open>64 word\<close>, a byte is \<open>8 word\<close>, and a Go
  \<^verbatim>\<open>string\<close> is the list of its bytes.
  The tracer calls only log and are left out, as are the certificate fields of
  \<^verbatim>\<open>Session.SSL\<close> and the fields no method below reads.
\<close>

subsection \<open>Bytes, errors and outcomes\<close>

type_synonym byte = "8 word"

text \<open>An error of the transport: \<open>NetTimeout\<close> is a \<^verbatim>\<open>net.Error\<close> whose \<^verbatim>\<open>Timeout()\<close> is true,
  \<open>NetFailure\<close> any other error (\<^verbatim>\<open>io.EOF\<close>, a reset connection).\<close>

datatype net_error = NetTimeout | NetFailure

record OracleError =
  ErrCode :: int
  ErrMsg :: "byte list"

text \<open>The Go \<^verbatim>\<open>error\<close> values the file creates or passes on. \<open>ErrExternal\<close> stands for an
  error returned by a function that is not part of \<^verbatim>\<open>session.go\<close>.\<close>

datatype error =
    ErrNet net_error
  | ErrAbnormalResponse
  | ErrNotDataPacket
  | ErrUnknownMarkerType
  | ErrConnectionBreak
  | ErrInvalidChunkSize byte
  | ErrOracle OracleError
  | ErrRedirectWrongPort
  | ErrRefused byte byte "byte list"
  | ErrRefusedUnknownReason
  | ErrExternal nat

text \<open>
  Outcomes that are not a return. \<open>PanicSliceBounds\<close>, \<open>PanicNilPointer\<close> and
  \<open>PanicNotInteger\<close> are run-time panics. \<open>PastLength\<close> is a slice expression \<^verbatim>\<open>a[i:j]\<close> with
  \<^verbatim>\<open>j > len(a)\<close> on a slice whose capacity the file does not determine: Go panics when
  \<^verbatim>\<open>j > cap(a)\<close> and otherwise yields the bytes of the spare capacity, and which of the two
  happens is the allocator's choice.
\<close>

datatype abort = PanicSliceBounds | PanicNilPointer | PanicNotInteger | PastLength

datatype 'a exec = Done 'a | Abort abort

subsection \<open>Packets\<close>

text \<open>
  The packet types are declared outside \<^verbatim>\<open>session.go\<close>; the records below hold the fields
  that \<^verbatim>\<open>session.go\<close> reads or writes. The numeric packet-type tags are the ones of the TNS
  protocol.
\<close>

record SessionContext =
  Version :: int
  SessionDataUnit :: int
  handshakeComplete :: bool
  HashAlgo :: "error option option"
    \<comment> \<open>\<^verbatim>\<open>AdvancedService.HashAlgo\<close>: \<open>None\<close> is nil, \<open>Some r\<close> a hook whose \<^verbatim>\<open>Init()\<close> returns \<open>r\<close>\<close>

record ConnectionOption =
  Host :: "byte list"
  Port :: int
  Protocol :: "byte list"
  SSL :: bool
  SSLVerify :: bool
  connData :: "byte list"

record Packet =
  pck_length :: "32 word"
  dataOffset :: "16 word"
  flag :: byte

record DataPacket =
  buffer :: "byte list"

record MarkerPacket =
  markerType :: byte
  markerData :: byte

record RedirectPacket =
  packet :: Packet
  redirectAddr :: "byte list"
  reconnectData :: "byte list"

record ConnectPacket =
  cpacket :: Packet
  cbuffer :: "byte list"

record AcceptPacket =
  sessionCtx :: SessionContext

record RefusePacket =
  UserReason :: byte
  SystemReason :: byte
  message :: "byte list"

datatype packet =
    PConnect ConnectPacket
  | PAccept AcceptPacket
  | PRefuse RefusePacket
  | PRedirect RedirectPacket
  | PData DataPacket
  | PMarker MarkerPacket

text \<open>A value of the interface \<^verbatim>\<open>PacketInterface\<close>: the nil interface, a packet, or the
  interface that holds a nil \<^verbatim>\<open>*DataPacket\<close> (what \<^verbatim>\<open>readPacket\<close> returns when
  \<^verbatim>\<open>newDataPacketFromData\<close> yields a nil pointer).\<close>

datatype PacketInterface = NilInterface | Iface packet | NilDataPacket

definition CONNECT :: byte where "CONNECT = 1"
definition ACCEPT :: byte where "ACCEPT = 2"
definition REFUSE :: byte where "REFUSE = 4"
definition REDIRECT :: byte where "REDIRECT = 5"
definition DATA :: byte where "DATA = 6"
definition RESEND :: byte where "RESEND = 11"
definition MARKER :: byte where "MARKER = 12"

subsection \<open>The transport\<close>

text \<open>
  The peer is a script. \<open>rx\<close> lists what arrives: an entry \<open>(bs, e)\<close> delivers the bytes
  \<open>bs\<close> and then reports \<open>e\<close> together with the last of them. \<^verbatim>\<open>Read(buf)\<close> takes from the
  first entry at most \<^verbatim>\<open>len(buf)\<close> bytes and leaves the rest of the entry in place; on an
  exhausted script it fails. \<open>wres\<close> lists the results of the coming \<^verbatim>\<open>Write\<close> calls (none
  left: success), and \<open>tx\<close> records every successful write with the handle it went through
  (\<open>True\<close>: the TLS client \<^verbatim>\<open>sslConn\<close>, \<open>False\<close>: the raw \<^verbatim>\<open>conn\<close>).
\<close>

record transport =
  rx :: "(byte list \<times> net_error option) list"
  tx :: "(bool \<times> byte list) list"
  wres :: "net_error option list"

definition conn_Read :: "nat \<Rightarrow> transport \<Rightarrow> (byte list \<times> net_error option) \<times> transport" where
  [code]: "conn_Read L c =
     (if L = 0 then (([], None), c)
      else case rx c of
        [] \<Rightarrow> (([], Some NetFailure), c)
      | (bs, e) # rest \<Rightarrow>
          if length bs \<le> L then ((bs, e), c\<lparr>rx := rest\<rparr>)
          else ((take L bs, None), c\<lparr>rx := (drop L bs, e) # rest\<rparr>))"

definition conn_Write :: "bool \<Rightarrow> byte list \<Rightarrow> transport \<Rightarrow> net_error option \<times> transport" where
  "conn_Write tls bs c =
     (case wres c of
        [] \<Rightarrow> (None, c\<lparr>tx := tx c @ [(tls, bs)]\<rparr>)
      | None # w \<Rightarrow> (None, c\<lparr>tx := tx c @ [(tls, bs)], wres := w\<rparr>)
      | Some e # w \<Rightarrow> (Some e, c\<lparr>wres := w\<rparr>))"

subsection \<open>The session\<close>

record SummaryObject =
  RetCode :: int
  ErrorMessage :: "byte list"

text \<open>
  \<^verbatim>\<open>bytes.Buffer\<close> is never read from in \<^verbatim>\<open>session.go\<close>, so its read offset stays 0: a
  buffer is its backing array and its length. The arrays live in \<open>heap\<close>, because
  \<^verbatim>\<open>SaveState\<close> keeps the slice \<^verbatim>\<open>outBuffer.Bytes()\<close>, which shares the array with the buffer.
  An array is named by its position in \<open>heap\<close>, and the length of \<open>heap s ! a\<close> is its
  capacity; array 0 is the nil slice. The capacity of a new array is the choice of the
  allocator and of the version of the Go library: \<open>allocs\<close> lists, for the coming
  allocations, how many bytes of capacity each gets beyond the bytes it has to hold (none
  left: 0). \<open>StrConv\<close> says whether a string converter is set; its \<^verbatim>\<open>Decode\<close> is a
  function of another package.
\<close>

record Buffer =
  barr :: nat
  blen :: nat

record sessionState =
  st_summary :: "SummaryObject option"
  st_sendPcks :: "packet list"
  st_inBuffer :: "byte list"
  st_outBuffer :: Buffer
  st_index :: int

record Session =
  conn :: "transport option"
  sslConn :: bool
  connOption :: ConnectionOption
  Context :: SessionContext
  sendPcks :: "packet list"
  inBuffer :: "byte list"
  outBuffer :: Buffer
  heap :: "byte list list"
  allocs :: "nat list"
  index :: int
  Summary :: "SummaryObject option"
  states :: "sessionState list"
  StrConv :: bool
  UseBigClrChunks :: bool
  ClrChunkSize :: int

subsection \<open>The out-buffer (\<^verbatim>\<open>bytes.Buffer\<close>)\<close>

text \<open>
  \<^verbatim>\<open>Write\<close> appends in place when the bytes fit the capacity. Otherwise it allocates an
  array that holds the old and the new bytes and the spare capacity that \<open>allocs\<close> gives;
  the old array stays as it is. \<^verbatim>\<open>Reset\<close> sets the length to 0 and keeps the array, so
  later writes overwrite it.
\<close>

definition buf_Bytes :: "Session \<Rightarrow> byte list" where
  "buf_Bytes s = take (blen (outBuffer s)) (heap s ! barr (outBuffer s))"

definition buf_Len :: "Session \<Rightarrow> int" where
  "buf_Len s = int (blen (outBuffer s))"

definition buf_Reset :: "Session \<Rightarrow> Session" where
  "buf_Reset s = s\<lparr>outBuffer := (outBuffer s)\<lparr>blen := 0\<rparr>\<rparr>"

definition buf_Write :: "Session \<Rightarrow> byte list \<Rightarrow> Session" where
  "buf_Write s p =
     (let b = outBuffer s; a = heap s ! barr b; m = blen b; n = length p in
      if m + n \<le> length a then
        s\<lparr>heap := (heap s)[barr b := take m a @ p @ drop (m + n) a],
          outBuffer := b\<lparr>blen := m + n\<rparr>\<rparr>
      else
        let spare = (case allocs s of [] \<Rightarrow> 0 | e # _ \<Rightarrow> e) in
        s\<lparr>heap := heap s @ [take m a @ p @ replicate spare 0],
          outBuffer := \<lparr>barr = length (heap s), blen = m + n\<rparr>,
          allocs := tl (allocs s)\<rparr>)"

definition buf_WriteByte :: "Session \<Rightarrow> byte \<Rightarrow> Session" where
  "buf_WriteByte s c = buf_Write s [c]"

text \<open>The buffer's array exists and its length does not exceed the capacity.\<close>

definition buf_ok :: "Session \<Rightarrow> bool" where
  "buf_ok s =
     (barr (outBuffer s) < length (heap s) \<and>
      blen (outBuffer s) \<le> length (heap s ! barr (outBuffer s)))"

subsection \<open>\<^verbatim>\<open>encoding/binary\<close> and \<^verbatim>\<open>bytes.TrimLeft\<close>\<close>

text \<open>\<^verbatim>\<open>PutUintNN\<close> fills a slice of NN/8 bytes, which is returned here as a list;
  \<^verbatim>\<open>Uint64\<close> reads the 8 bytes of its argument, most significant first for
  \<^verbatim>\<open>BigEndian\<close>.\<close>

definition BigEndian_PutUint16 :: "16 word \<Rightarrow> byte list" where
  "BigEndian_PutUint16 v = [ucast (drop_bit 8 v), ucast v]"

definition BigEndian_PutUint32 :: "32 word \<Rightarrow> byte list" where
  "BigEndian_PutUint32 v =
     [ucast (drop_bit 24 v), ucast (drop_bit 16 v), ucast (drop_bit 8 v), ucast v]"

definition BigEndian_PutUint64 :: "64 word \<Rightarrow> byte list" where
  "BigEndian_PutUint64 v =
     [ucast (drop_bit 56 v), ucast (drop_bit 48 v), ucast (drop_bit 40 v),
      ucast (drop_bit 32 v), ucast (drop_bit 24 v), ucast (drop_bit 16 v),
      ucast (drop_bit 8 v), ucast v]"

definition LittleEndian_PutUint16 :: "16 word \<Rightarrow> byte list" where
  "LittleEndian_PutUint16 v = [ucast v, ucast (drop_bit 8 v)]"

definition LittleEndian_PutUint32 :: "32 word \<Rightarrow> byte list" where
  "LittleEndian_PutUint32 v =
     [ucast v, ucast (drop_bit 8 v), ucast (drop_bit 16 v), ucast (drop_bit 24 v)]"

definition LittleEndian_PutUint64 :: "64 word \<Rightarrow> byte list" where
  "LittleEndian_PutUint64 v =
     [ucast v, ucast (drop_bit 8 v), ucast (drop_bit 16 v), ucast (drop_bit 24 v),
      ucast (drop_bit 32 v), ucast (drop_bit 40 v), ucast (drop_bit 48 v),
      ucast (drop_bit 56 v)]"

definition BigEndian_Uint64 :: "byte list \<Rightarrow> 64 word" where
  "BigEndian_Uint64 b = foldl (\<lambda>acc x. push_bit 8 acc OR ucast x) 0 b"

definition LittleEndian_Uint64 :: "byte list \<Rightarrow> 64 word" where
  "LittleEndian_Uint64 b = foldr (\<lambda>x acc. push_bit 8 acc OR ucast x) b 0"

definition BigEndian_Uint16 :: "byte list \<Rightarrow> 16 word" where
  "BigEndian_Uint16 b = foldl (\<lambda>acc x. push_bit 8 acc OR ucast x) 0 b"

definition BigEndian_Uint32 :: "byte list \<Rightarrow> 32 word" where
  "BigEndian_Uint32 b = foldl (\<lambda>acc x. push_bit 8 acc OR ucast x) 0 b"

definition TrimLeft0 :: "byte list \<Rightarrow> byte list" where
  "TrimLeft0 b = dropWhile (\<lambda>x. x = 0) b"

subsection \<open>Writing integers\<close>

text \<open>The dynamic type of the \<^verbatim>\<open>interface{}\<close> argument of \<^verbatim>\<open>PutUint\<close> and \<^verbatim>\<open>PutInt\<close>;
  \<open>NotInteger\<close> is any value of another type.\<close>

datatype number =
    NInt64 "64 word" | NInt32 "32 word" | NInt16 "16 word" | NInt8 "8 word"
  | NUint64 "64 word" | NUint32 "32 word" | NUint16 "16 word" | NUint8 "8 word"
  | NUint "64 word" | NInt "64 word"
  | NotInteger

text \<open>The conversion to \<^verbatim>\<open>uint64\<close> (and to \<^verbatim>\<open>int64\<close>, which has the same bits): signed
  types are sign-extended, unsigned ones zero-extended.\<close>

fun to64 :: "number \<Rightarrow> 64 word option" where
  "to64 (NInt64 n) = Some n"
| "to64 (NInt32 n) = Some (scast n)"
| "to64 (NInt16 n) = Some (scast n)"
| "to64 (NInt8 n) = Some (scast n)"
| "to64 (NUint64 n) = Some n"
| "to64 (NUint32 n) = Some (ucast n)"
| "to64 (NUint16 n) = Some (ucast n)"
| "to64 (NUint8 n) = Some (ucast n)"
| "to64 (NUint n) = Some n"
| "to64 (NInt n) = Some n"
| "to64 NotInteger = None"

text \<open>The integer that a \<open>number\<close> denotes.\<close>

fun number_val :: "number \<Rightarrow> int" where
  "number_val (NInt64 n) = sint n"
| "number_val (NInt32 n) = sint n"
| "number_val (NInt16 n) = sint n"
| "number_val (NInt8 n) = sint n"
| "number_val (NUint64 n) = uint n"
| "number_val (NUint32 n) = uint n"
| "number_val (NUint16 n) = uint n"
| "number_val (NUint8 n) = uint n"
| "number_val (NUint n) = uint n"
| "number_val (NInt n) = sint n"
| "number_val NotInteger = 0"

text \<open>\<^verbatim>\<open>temp := make([]byte, size)\<close> filled by the \<^verbatim>\<open>switch size\<close> of the uncompressed
  branch: sizes other than 2, 4 and 8 leave the zero bytes.\<close>

definition raw_int_bytes :: "64 word \<Rightarrow> byte \<Rightarrow> bool \<Rightarrow> byte list" where
  "raw_int_bytes num sz bigEndian =
     (if bigEndian then
        (if sz = 2 then BigEndian_PutUint16 (ucast num)
         else if sz = 4 then BigEndian_PutUint32 (ucast num)
         else if sz = 8 then BigEndian_PutUint64 num
         else replicate (unat sz) 0)
      else
        (if sz = 2 then LittleEndian_PutUint16 (ucast num)
         else if sz = 4 then LittleEndian_PutUint32 (ucast num)
         else if sz = 8 then LittleEndian_PutUint64 num
         else replicate (unat sz) 0))"

definition PutUint :: "Session \<Rightarrow> number \<Rightarrow> byte \<Rightarrow> bool \<Rightarrow> bool \<Rightarrow> Session exec" where
  "PutUint s number sz bigEndian compress =
     (case to64 number of
        None \<Rightarrow> Abort PanicNotInteger
      | Some num \<Rightarrow>
          if sz = 1 then Done (buf_WriteByte s (ucast num))
          else if compress then
            (let temp = TrimLeft0 (BigEndian_PutUint64 num);
                 sz = (if sz > of_nat (length temp) then of_nat (length temp) else sz)
             in if sz = 0 then Done (buf_WriteByte s 0)
                else Done (buf_Write (buf_WriteByte s sz) temp))
          else Done (buf_Write s (raw_int_bytes num sz bigEndian)))"

definition PutInt :: "Session \<Rightarrow> number \<Rightarrow> byte \<Rightarrow> bool \<Rightarrow> bool \<Rightarrow> Session exec" where
  "PutInt s number sz bigEndian compress =
     (case to64 number of
        None \<Rightarrow> Abort PanicNotInteger
      | Some num \<Rightarrow>
          if compress then
            (let temp = TrimLeft0 (BigEndian_PutUint64 num);
                 sz = (if sz > of_nat (length temp) then of_nat (length temp) else sz)
             in if sz = 0 then Done (buf_WriteByte s 0)
                else
                  let (num, sz) = (if num <s 0 then (num * (- 1), sz AND 0x80) else (num, sz))
                  in Done (buf_Write (buf_WriteByte s sz) temp))
          else if sz = 1 then Done (buf_WriteByte s (ucast num))
          else Done (buf_Write s (raw_int_bytes num sz bigEndian)))"

definition PutBytes :: "Session \<Rightarrow> byte list \<Rightarrow> Session" where
  "PutBytes s data = buf_Write s data"

subsection \<open>Functions of the package that \<^verbatim>\<open>session.go\<close> calls\<close>

text \<open>
  The packet constructors and parsers, \<^verbatim>\<open>bytes()\<close> and \<^verbatim>\<open>NewSummary\<close> are defined in other
  files of the package, the string converter in another package. They are parameters of
  the model: every function below that
  calls one of them takes the record \<open>L\<close> of their implementations. A function that
  returns a pointer returns an option here (\<open>None\<close> is the nil pointer).

  \<^verbatim>\<open>newDataPacket\<close> and \<^verbatim>\<open>newMarkerPacket\<close> are given the pointer \<^verbatim>\<open>session.Context\<close>, so
  the packets they build see the context as it is when \<^verbatim>\<open>bytes()\<close> is called, not as it
  was when they were built: \<open>bytes\<close> takes the packet and the context of the session at
  the time of the call.

  \<open>redirect_protocol\<close>, \<open>redirect_host\<close> and \<open>redirect_port\<close> are the methods \<^verbatim>\<open>protocol()\<close>,
  \<^verbatim>\<open>host()\<close> and \<^verbatim>\<open>port()\<close> of a redirect packet; \<open>Atoi\<close> is \<^verbatim>\<open>strconv.Atoi\<close>, which returns a
  number and whether the text was one.

  \<open>segmentLen_of\<close> is \<^verbatim>\<open>int(session.Context.SessionDataUnit - 20)\<close>. The integer type of
  \<^verbatim>\<open>SessionDataUnit\<close> is declared in another file; from 20 upwards every type gives the
  difference, below 20 the result depends on the type (an unsigned one wraps around).
\<close>

record Lib =
  newDataPacket :: "byte list \<Rightarrow> SessionContext \<Rightarrow> DataPacket option \<times> error option"
  newDataPacketFromData :: "byte list \<Rightarrow> SessionContext \<Rightarrow> DataPacket option \<times> error option"
  newMarkerPacketFromData :: "byte list \<Rightarrow> SessionContext \<Rightarrow> MarkerPacket option"
  newMarkerPacket :: "byte \<Rightarrow> SessionContext \<Rightarrow> MarkerPacket"
  newRedirectPacketFromData :: "byte list \<Rightarrow> RedirectPacket"
  newAcceptPacketFromData :: "byte list \<Rightarrow> SessionContext \<Rightarrow> AcceptPacket"
  newRefusePacketFromData :: "byte list \<Rightarrow> RefusePacket"
  redirect_protocol :: "RedirectPacket \<Rightarrow> byte list"
  redirect_host :: "RedirectPacket \<Rightarrow> byte list"
  redirect_port :: "RedirectPacket \<Rightarrow> byte list"
  Atoi :: "byte list \<Rightarrow> int \<times> bool"
  bytes :: "packet \<Rightarrow> SessionContext \<Rightarrow> byte list"
  segmentLen_of :: "SessionContext \<Rightarrow> int"
  Decode :: "byte list \<Rightarrow> byte list"
  NewSummary :: "Session \<Rightarrow> (SummaryObject option \<times> error option) \<times> Session"

subsection \<open>Slice expressions and 64-bit sums\<close>

text \<open>The value of a sum in the 64-bit type \<^verbatim>\<open>int\<close>.\<close>

definition wrap64 :: "int \<Rightarrow> int" where
  "wrap64 i = (i + 2 ^ 63) mod 2 ^ 64 - 2 ^ 63"

text \<open>\<^verbatim>\<open>a[lo:hi]\<close> on a slice of which only the elements up to its length are known.\<close>

definition go_slice :: "'a list \<Rightarrow> int \<Rightarrow> int \<Rightarrow> 'a list exec" where
  "go_slice a lo hi =
     (if lo < 0 \<or> hi < lo then Abort PanicSliceBounds
      else if hi \<le> int (length a) then Done (take (nat (hi - lo)) (drop (nat lo) a))
      else Abort PastLength)"

subsection \<open>\<^verbatim>\<open>negotiate\<close>, \<^verbatim>\<open>writePacket\<close>, \<^verbatim>\<open>ResetBuffer\<close>\<close>

text \<open>\<^verbatim>\<open>negotiate\<close> wraps \<^verbatim>\<open>session.conn\<close> in a new TLS client; the root pool and the
  configuration it builds are not modelled.\<close>

definition negotiate :: "Session \<Rightarrow> Session" where
  "negotiate s = s\<lparr>sslConn := True\<rparr>"

definition writePacket :: "Lib \<Rightarrow> Session \<Rightarrow> packet \<Rightarrow> (error option \<times> Session) exec" where
  "writePacket L s pck =
     (let s = s\<lparr>sendPcks := sendPcks s @ [pck]\<rparr>;
          tmp = bytes L pck (Context s)
      in case conn s of
           None \<Rightarrow> Abort PanicNilPointer
         | Some c \<Rightarrow>
             (case conn_Write (sslConn s) tmp c of
                (err, c') \<Rightarrow> Done (map_option ErrNet err, s\<lparr>conn := Some c'\<rparr>)))"

definition ResetBuffer :: "Session \<Rightarrow> Session" where
  "ResetBuffer s =
     buf_Reset (s\<lparr>Summary := None, sendPcks := [], inBuffer := []\<rparr>) \<lparr>index := 0\<rparr>"

definition Disconnect :: "Session \<Rightarrow> Session" where
  "Disconnect s = (ResetBuffer s)\<lparr>sslConn := False, conn := None\<rparr>"

subsection \<open>\<^verbatim>\<open>Write\<close>: flushing the out-buffer\<close>

text \<open>
  The loop \<^verbatim>\<open>for size > segmentLen\<close>; its state is the session, \<^verbatim>\<open>size\<close> and \<^verbatim>\<open>offset\<close>, and it
  stops early with the error of \<^verbatim>\<open>newDataPacket\<close> or of \<^verbatim>\<open>writePacket\<close>.
\<close>

partial_function (option) Write_loop ::
  "Lib \<Rightarrow> Session \<Rightarrow> byte list \<Rightarrow> int \<Rightarrow> int \<Rightarrow> int \<Rightarrow> (error option \<times> int \<times> int \<times> Session) exec option"
where
  [code]: "Write_loop L s outputBytes segmentLen sz offset =
     (if sz > segmentLen then
        (case go_slice outputBytes offset (offset + segmentLen) of
           Abort a \<Rightarrow> Some (Abort a)
         | Done seg \<Rightarrow>
             (case newDataPacket L seg (Context s) of
                (_, Some err) \<Rightarrow> Some (Done (Some err, sz, offset, s))
              | (None, None) \<Rightarrow> Some (Abort PanicNilPointer)
              | (Some pck, None) \<Rightarrow>
                  (case writePacket L s (PData pck) of
                     Abort a \<Rightarrow> Some (Abort a)
                   | Done (Some err, s') \<Rightarrow> Some (Done (Some err, sz, offset, buf_Reset s'))
                   | Done (None, s') \<Rightarrow>
                       Write_loop L s' outputBytes segmentLen (sz - segmentLen)
                         (offset + segmentLen))))
      else Some (Done (None, sz, offset, s)))"

definition Write :: "Lib \<Rightarrow> Session \<Rightarrow> (error option \<times> Session) exec option" where
  "Write L s =
     (let outputBytes = buf_Bytes s; sz = buf_Len s in
      if sz = 0 then
        (case newDataPacket L [] (Context s) of
           (_, Some err) \<Rightarrow> Some (Done (Some err, s))
         | (None, None) \<Rightarrow> Some (Abort PanicNilPointer)
         | (Some pck, None) \<Rightarrow> Some (writePacket L s (PData pck)))
      else
        let segmentLen = segmentLen_of L (Context s) in
        Option.bind (Write_loop L s outputBytes segmentLen sz 0) (\<lambda>r.
          case r of
            Abort a \<Rightarrow> Some (Abort a)
          | Done (Some err, _, _, s') \<Rightarrow> Some (Done (Some err, s'))
          | Done (None, sz, offset, s') \<Rightarrow>
              if sz \<noteq> 0 then
                (case go_slice outputBytes offset (int (length outputBytes)) of
                   Abort a \<Rightarrow> Some (Abort a)
                 | Done seg \<Rightarrow>
                     (case newDataPacket L seg (Context s') of
                        (_, Some err) \<Rightarrow> Some (Done (Some err, s'))
                      | (None, None) \<Rightarrow> Some (Abort PanicNilPointer)
                      | (Some pck, None) \<Rightarrow>
                          (case writePacket L s' (PData pck) of
                             Abort a \<Rightarrow> Some (Abort a)
                           | Done (Some err, s'') \<Rightarrow> Some (Done (Some err, buf_Reset s''))
                           | Done (None, s'') \<Rightarrow> Some (Done (None, s'')))))
              else Some (Done (None, s'))))"

subsection \<open>\<^verbatim>\<open>readPacket\<close>: the closure \<^verbatim>\<open>readPacketData\<close>\<close>

text \<open>
  The loop that fills \<^verbatim>\<open>body\<close>: \<open>acc\<close> is the part read so far (\<^verbatim>\<open>body[:index]\<close>) and \<open>len\<close> is
  \<^verbatim>\<open>length\<close>. A timeout that comes with bytes continues the loop, any other error ends
  it. Both handles read the same stream.
\<close>

partial_function (option) readBody ::
  "Session \<Rightarrow> nat \<Rightarrow> byte list \<Rightarrow> ((byte list \<times> error option) \<times> Session) exec option"
where
  [code]: "readBody s len acc =
     (if length acc < len then
        (case conn s of
           None \<Rightarrow> Some (Abort PanicNilPointer)
         | Some c \<Rightarrow>
             (case conn_Read (len - length acc) c of
                ((temp, err), c') \<Rightarrow>
                  (case err of
                     Some e \<Rightarrow>
                       if e = NetTimeout \<and> temp \<noteq> [] then
                         readBody (s\<lparr>conn := Some c'\<rparr>) len (acc @ temp)
                       else Some (Done (([], Some (ErrNet e)), s\<lparr>conn := Some c'\<rparr>))
                   | None \<Rightarrow> readBody (s\<lparr>conn := Some c'\<rparr>) len (acc @ temp))))
      else Some (Done ((acc, None), s)))"

text \<open>The replay of \<^verbatim>\<open>sendPcks\<close> on RESEND: \<^verbatim>\<open>for _, pck := range session.sendPcks\<close>.\<close>

fun resend :: "Lib \<Rightarrow> Session \<Rightarrow> packet list \<Rightarrow> (error option \<times> Session) exec" where
  "resend L s [] = Done (None, s)"
| "resend L s (pck # pcks) =
     (let s1 = (if SSL (connOption s) then negotiate s else s) in
      case conn s1 of
        None \<Rightarrow> Abort PanicNilPointer
      | Some c \<Rightarrow>
          (case conn_Write (SSL (connOption s)) (bytes L pck (Context s)) c of
             (Some e, c') \<Rightarrow> Done (Some (ErrNet e), s1\<lparr>conn := Some c'\<rparr>)
           | (None, c') \<Rightarrow> resend L (s1\<lparr>conn := Some c'\<rparr>) pcks))"

text \<open>The packet length declared by the header \<^verbatim>\<open>head\<close>.\<close>

definition declared_length :: "SessionContext \<Rightarrow> byte list \<Rightarrow> 32 word" where
  "declared_length ctx head =
     (if handshakeComplete ctx \<and> Version ctx \<ge> 315 then BigEndian_Uint32 (take 4 head)
      else ucast (BigEndian_Uint16 (take 2 head)))"

text \<open>The loop of \<^verbatim>\<open>readPacketData\<close>; \<^verbatim>\<open>Read(head)\<close> fills the first bytes of the 8 zero
  bytes of \<^verbatim>\<open>head\<close> and its count is ignored.\<close>

partial_function (option) readPacketData_loop ::
  "Lib \<Rightarrow> Session \<Rightarrow> nat \<Rightarrow> ((byte list \<times> error option) \<times> Session) exec option"
where
  [code]: "readPacketData_loop L s trials =
     (if trials > 3 then Some (Done (([], Some ErrAbnormalResponse), s))
      else
        case conn s of
          None \<Rightarrow> Some (Abort PanicNilPointer)
        | Some c \<Rightarrow>
            (case conn_Read 8 c of
               ((hb, Some e), c') \<Rightarrow> Some (Done (([], Some (ErrNet e)), s\<lparr>conn := Some c'\<rparr>))
             | ((hb, None), c') \<Rightarrow>
                 (let head = hb @ replicate (8 - length hb) 0;
                      pckType = head ! 4;
                      len = declared_length (Context s) head - 8
                  in Option.bind (readBody (s\<lparr>conn := Some c'\<rparr>) (unat len) []) (\<lambda>r.
                       case r of
                         Abort a \<Rightarrow> Some (Abort a)
                       | Done ((_, Some err), s2) \<Rightarrow> Some (Done (([], Some err), s2))
                       | Done ((body, None), s2) \<Rightarrow>
                           if pckType = RESEND then
                             (case resend L s2 (sendPcks s2) of
                                Abort a \<Rightarrow> Some (Abort a)
                              | Done (Some err, s3) \<Rightarrow> Some (Done (([], Some err), s3))
                              | Done (None, s3) \<Rightarrow> readPacketData_loop L s3 (Suc trials))
                           else Some (Done ((head @ body, None), s2))))))"

definition readPacketData :: "Lib \<Rightarrow> Session \<Rightarrow> ((byte list \<times> error option) \<times> Session) exec option" where
  "readPacketData L s = readPacketData_loop L s 0"

subsection \<open>Byte slices that are returned to the caller\<close>

text \<open>
  A slice returned by \<^verbatim>\<open>read\<close> is a window of \<^verbatim>\<open>inBuffer\<close>: \<open>Slice bs spare\<close> has the elements
  \<open>bs\<close>, and \<open>spare\<close> are the bytes of \<^verbatim>\<open>inBuffer\<close> behind it, which a slice expression can
  reach because they lie within the capacity. \<open>NilSlice\<close> is \<^verbatim>\<open>nil\<close>, of capacity 0. The
  bytes of a local \<^verbatim>\<open>bytes.Buffer\<close> are a \<open>Slice\<close> with no known spare bytes.
\<close>

datatype bslice = NilSlice | Slice "byte list" "byte list"

fun bytes_of :: "bslice \<Rightarrow> byte list" where
  "bytes_of NilSlice = []"
| "bytes_of (Slice bs spare) = bs"

text \<open>\<^verbatim>\<open>Bytes()\<close> of a local buffer that holds \<open>bs\<close>: the nil slice when nothing was written.\<close>

definition local_Bytes :: "byte list \<Rightarrow> bslice" where
  "local_Bytes bs = (if bs = [] then NilSlice else Slice bs [])"

text \<open>\<^verbatim>\<open>ret[:n]\<close>.\<close>

fun reslice_to :: "bslice \<Rightarrow> int \<Rightarrow> byte list exec" where
  "reslice_to NilSlice n = (if n = 0 then Done [] else Abort PanicSliceBounds)"
| "reslice_to (Slice bs spare) n =
     (if n < 0 then Abort PanicSliceBounds
      else if n \<le> int (length bs + length spare) then Done (take (nat n) (bs @ spare))
      else Abort PastLength)"

text \<open>The last two statements of \<^verbatim>\<open>read\<close>: the slice expression and the cursor update.\<close>

definition read_slice :: "Session \<Rightarrow> int \<Rightarrow> ((bslice \<times> error option) \<times> Session) exec" where
  "read_slice s numBytes =
     (let lo = index s; hi = wrap64 (index s + numBytes) in
      if lo < 0 \<or> hi < lo then Abort PanicSliceBounds
      else if hi \<le> int (length (inBuffer s)) then
        Done ((Slice (take (nat (hi - lo)) (drop (nat lo) (inBuffer s)))
                     (drop (nat hi) (inBuffer s)), None),
              s\<lparr>index := hi\<rparr>)
      else Abort PastLength)"

subsection \<open>\<^verbatim>\<open>readPacket\<close>\<close>

text \<open>\<^verbatim>\<open>strings.Index(data, "\x00")\<close>.\<close>

fun Index0 :: "byte list \<Rightarrow> int" where
  "Index0 [] = - 1"
| "Index0 (x # xs) = (if x = 0 then 0 else (let r = Index0 xs in if r < 0 then - 1 else r + 1))"

text \<open>The \<^verbatim>\<open>switch pck.markerType\<close>, on the flags \<^verbatim>\<open>breakConnection\<close> and
  \<^verbatim>\<open>resetConnection\<close>; \<open>None\<close> is the default case.\<close>

definition marker_switch :: "MarkerPacket \<Rightarrow> bool \<Rightarrow> bool \<Rightarrow> (bool \<times> bool) option" where
  "marker_switch pck breakConnection resetConnection =
     (if markerType pck = 0 then Some (True, resetConnection)
      else if markerType pck = 1 then
        (if markerData pck = 2 then Some (breakConnection, True)
         else Some (True, resetConnection))
      else None)"

definition HasError :: "Session \<Rightarrow> bool" where
  "HasError s = (case Summary s of None \<Rightarrow> False | Some sm \<Rightarrow> RetCode sm \<noteq> 0)"

definition GetError :: "Lib \<Rightarrow> Session \<Rightarrow> OracleError" where
  "GetError L s =
     (case Summary s of
        None \<Rightarrow> \<lparr>ErrCode = 0, ErrMsg = []\<rparr>
      | Some sm \<Rightarrow>
          if RetCode sm \<noteq> 0 then
            \<lparr>ErrCode = RetCode sm,
             ErrMsg = (if StrConv s then Decode L (ErrorMessage sm) else ErrorMessage sm)\<rparr>
          else \<lparr>ErrCode = 0, ErrMsg = []\<rparr>)"

text \<open>The REDIRECT case once the text \<^verbatim>\<open>data\<close> is known.\<close>

definition redirect_split :: "RedirectPacket \<Rightarrow> byte list \<Rightarrow> RedirectPacket" where
  "redirect_split pck data =
     (let len = Index0 data in
      if flag (packet pck) AND 2 \<noteq> 0 \<and> len > 0 then
        pck\<lparr>redirectAddr := take (nat len) data, reconnectData := drop (nat len) data\<rparr>
      else pck\<lparr>redirectAddr := data\<rparr>)"

definition readPacket_redirect ::
  "Lib \<Rightarrow> Session \<Rightarrow> byte list \<Rightarrow> ((PacketInterface \<times> error option) \<times> Session) exec option"
where
  "readPacket_redirect L s packetData =
     (let pck = newRedirectPacketFromData L packetData in
      if length packetData < 10 then Some (Abort PanicSliceBounds)
      else
        let dataLen = BigEndian_Uint16 (take 2 (drop 8 packetData)) in
        if (ucast (pck_length (packet pck)) :: 16 word) \<le> dataOffset (packet pck) then
          Option.bind (readPacketData L s) (\<lambda>r.
            case r of
              Abort a \<Rightarrow> Some (Abort a)
            | Done ((packetData, _), s1) \<Rightarrow>
                (case newDataPacketFromData L packetData (Context s1) of
                   (_, Some err) \<Rightarrow> Some (Done ((NilInterface, Some err), s1))
                 | (None, None) \<Rightarrow> Some (Abort PanicNilPointer)
                 | (Some dataPck, None) \<Rightarrow>
                     Some (Done ((Iface (PRedirect (redirect_split pck (buffer dataPck))), None), s1))))
        else
          (case go_slice packetData 10 (uint (10 + dataLen)) of
             Abort a \<Rightarrow> Some (Abort a)
           | Done data \<Rightarrow> Some (Done ((Iface (PRedirect (redirect_split pck data)), None), s))))"

text \<open>The loop \<^verbatim>\<open>for breakConnection && !resetConnection\<close> of the MARKER case; it returns
  \<^verbatim>\<open>resetConnection\<close>.\<close>

partial_function (option) marker_loop ::
  "Lib \<Rightarrow> Session \<Rightarrow> bool \<Rightarrow> bool \<Rightarrow> nat \<Rightarrow> ((bool \<times> error option) \<times> Session) exec option"
where
  [code]: "marker_loop L s breakConnection resetConnection trials =
     (if breakConnection \<and> \<not> resetConnection then
        (if trials > 3 then Some (Done ((resetConnection, Some ErrConnectionBreak), s))
         else
           Option.bind (readPacketData L s) (\<lambda>r.
             case r of
               Abort a \<Rightarrow> Some (Abort a)
             | Done ((_, Some err), s1) \<Rightarrow> Some (Done ((resetConnection, Some err), s1))
             | Done ((packetData, None), s1) \<Rightarrow>
                 (case newMarkerPacketFromData L packetData (Context s1) of
                    None \<Rightarrow> Some (Done ((resetConnection, Some ErrConnectionBreak), s1))
                  | Some pck \<Rightarrow>
                      (case marker_switch pck breakConnection resetConnection of
                         None \<Rightarrow> Some (Done ((resetConnection, Some ErrUnknownMarkerType), s1))
                       | Some (b, r) \<Rightarrow> marker_loop L s1 b r (Suc trials)))))
      else Some (Done ((resetConnection, None), s)))"

text \<open>The MARKER case after \<^verbatim>\<open>msg, err := session.GetByte()\<close> has returned \<open>msg\<close>.\<close>

definition marker_finish :: "Lib \<Rightarrow> Session \<Rightarrow> byte \<Rightarrow> ((PacketInterface \<times> error option) \<times> Session) exec" where
  "marker_finish L s msg =
     (if msg = 4 then
        (case NewSummary L s of
           ((sm, err), s') \<Rightarrow>
             (let s'' = s'\<lparr>Summary := sm\<rparr> in
              case err of
                Some e \<Rightarrow> Done ((NilInterface, Some e), s'')
              | None \<Rightarrow>
                  if HasError s'' then Done ((NilInterface, Some (ErrOracle (GetError L s''))), s'')
                  else Done ((NilInterface, None), s'')))
      else Done ((NilInterface, None), s))"

text \<open>\<^verbatim>\<open>rb[0]\<close> of \<^verbatim>\<open>GetByte\<close>, followed by the rest of the MARKER case.\<close>

definition marker_after_read ::
  "Lib \<Rightarrow> ((bslice \<times> error option) \<times> Session) exec \<Rightarrow> ((PacketInterface \<times> error option) \<times> Session) exec"
where
  "marker_after_read L r =
     (case r of
        Abort a \<Rightarrow> Abort a
      | Done ((_, Some err), s) \<Rightarrow> Done ((NilInterface, Some err), s)
      | Done ((rb, None), s) \<Rightarrow>
          (case bytes_of rb of
             [] \<Rightarrow> Abort PanicSliceBounds
           | msg # _ \<Rightarrow> marker_finish L s msg))"

text \<open>
  The MARKER case up to \<^verbatim>\<open>session.index = 0\<close>, in three parts: the interpretation of
  the marker and the draining loop (\<open>marker_reset\<close>), the reset and the acknowledgement
  (\<open>marker_ack\<close>), and the DATA packet that follows (\<open>marker_install\<close>). \<open>Inl\<close> is a
  \<^verbatim>\<open>return\<close> of \<^verbatim>\<open>readPacket\<close> or a panic; \<open>Inr\<close> is the session to go on with.
\<close>

definition marker_install ::
  "Lib \<Rightarrow> Session \<Rightarrow> (((PacketInterface \<times> error option) \<times> Session) exec + Session) option"
where
  "marker_install L s3 =
     Option.bind (readPacketData L s3) (\<lambda>r.
       case r of
         Abort a \<Rightarrow> Some (Inl (Abort a))
       | Done ((_, Some err), s4) \<Rightarrow> Some (Inl (Done ((NilInterface, Some err), s4)))
       | Done ((packetData, None), s4) \<Rightarrow>
           (case newDataPacketFromData L packetData (Context s4) of
              (_, Some err) \<Rightarrow> Some (Inl (Done ((NilInterface, Some err), s4)))
            | (None, None) \<Rightarrow> Some (Inl (Done ((NilInterface, Some ErrConnectionBreak), s4)))
            | (Some dataPck, None) \<Rightarrow> Some (Inr (s4\<lparr>inBuffer := buffer dataPck, index := 0\<rparr>))))"

definition marker_ack ::
  "Lib \<Rightarrow> Session \<Rightarrow> bool \<Rightarrow> (((PacketInterface \<times> error option) \<times> Session) exec + Session) option"
where
  "marker_ack L s2 resetConnection =
     (case writePacket L (ResetBuffer s2) (PMarker (newMarkerPacket L 2 (Context s2))) of
        Abort a \<Rightarrow> Some (Inl (Abort a))
      | Done (Some err, s3) \<Rightarrow> Some (Inl (Done ((NilInterface, Some err), s3)))
      | Done (None, s3) \<Rightarrow>
          (case (if resetConnection then HashAlgo (Context s3) else None) of
             Some (Some err) \<Rightarrow> Some (Inl (Done ((NilInterface, Some err), s3)))
           | _ \<Rightarrow> marker_install L s3))"

definition marker_reset ::
  "Lib \<Rightarrow> Session \<Rightarrow> byte list \<Rightarrow> (((PacketInterface \<times> error option) \<times> Session) exec + Session) option"
where
  "marker_reset L s1 packetData =
     (case newMarkerPacketFromData L packetData (Context s1) of
        None \<Rightarrow> Some (Inl (Abort PanicNilPointer))
      | Some pck \<Rightarrow>
          (case marker_switch pck False False of
             None \<Rightarrow> Some (Inl (Done ((NilInterface, Some ErrUnknownMarkerType), s1)))
           | Some (breakConnection, resetConnection) \<Rightarrow>
               Option.bind (marker_loop L s1 breakConnection resetConnection 1) (\<lambda>r.
                 case r of
                   Abort a \<Rightarrow> Some (Inl (Abort a))
                 | Done ((_, Some err), s2) \<Rightarrow> Some (Inl (Done ((NilInterface, Some err), s2)))
                 | Done ((resetConnection, None), s2) \<Rightarrow> marker_ack L s2 resetConnection)))"

text \<open>What \<^verbatim>\<open>read(numBytes)\<close> does with the result \<open>r\<close> of its call of \<^verbatim>\<open>readPacket\<close>.\<close>

definition read_fetched ::
  "((PacketInterface \<times> error option) \<times> Session) exec \<Rightarrow> int \<Rightarrow> ((bslice \<times> error option) \<times> Session) exec"
where
  "read_fetched r numBytes =
     (case r of
        Abort a \<Rightarrow> Abort a
      | Done ((_, Some err), s1) \<Rightarrow> Done ((NilSlice, Some err), s1)
      | Done ((Iface (PData d), None), s1) \<Rightarrow>
          read_slice (s1\<lparr>inBuffer := inBuffer s1 @ buffer d\<rparr>) numBytes
      | Done ((NilDataPacket, None), s1) \<Rightarrow> Abort PanicNilPointer
      | Done ((_, None), s1) \<Rightarrow> Done ((NilSlice, Some ErrNotDataPacket), s1))"

text \<open>
  \<^verbatim>\<open>readPacket\<close>. Its MARKER case calls \<^verbatim>\<open>GetByte\<close>, which calls \<^verbatim>\<open>read(1)\<close>, which calls
  \<^verbatim>\<open>readPacket\<close> again when the installed payload is empty: the body of \<^verbatim>\<open>read\<close> stands at
  that place.
\<close>

partial_function (option) readPacket ::
  "Lib \<Rightarrow> Session \<Rightarrow> ((PacketInterface \<times> error option) \<times> Session) exec option"
where
  [code]: "readPacket L s =
     Option.bind (readPacketData L s) (\<lambda>r.
       case r of
         Abort a \<Rightarrow> Some (Abort a)
       | Done ((_, Some err), s1) \<Rightarrow> Some (Done ((NilInterface, Some err), s1))
       | Done ((packetData, None), s1) \<Rightarrow>
           (let pckType = packetData ! 4 in
            if pckType = ACCEPT then
              Some (Done ((Iface (PAccept (newAcceptPacketFromData L packetData (Context s1))), None), s1))
            else if pckType = REFUSE then
              Some (Done ((Iface (PRefuse (newRefusePacketFromData L packetData)), None), s1))
            else if pckType = REDIRECT then readPacket_redirect L s1 packetData
            else if pckType = DATA then
              (case newDataPacketFromData L packetData (Context s1) of
                 (None, err) \<Rightarrow> Some (Done ((NilDataPacket, err), s1))
               | (Some d, err) \<Rightarrow> Some (Done ((Iface (PData d), err), s1)))
            else if pckType = MARKER then
              Option.bind (marker_reset L s1 packetData) (\<lambda>x.
                case x of
                  Inl res \<Rightarrow> Some res
                | Inr s5 \<Rightarrow>
                    if wrap64 (index s5 + 1) > int (length (inBuffer s5)) then
                      Option.bind (readPacket L s5) (\<lambda>r.
                        Some (marker_after_read L (read_fetched r 1)))
                    else Some (marker_after_read L (read_slice s5 1)))
            else Some (Done ((NilInterface, None), s1))))"

subsection \<open>\<^verbatim>\<open>Connect\<close>: the reply of the listener\<close>

text \<open>
  The part of \<^verbatim>\<open>Connect\<close> that follows \<^verbatim>\<open>pck, err := session.readPacket()\<close> when \<^verbatim>\<open>err\<close> is nil:
  an ACCEPT installs the context of the packet and completes the handshake (the
  assignment goes through the pointer \<^verbatim>\<open>session.Context\<close>, so it reaches the packets of
  \<^verbatim>\<open>sendPcks\<close> too, and \<^verbatim>\<open>sendPcks\<close> stays as it is); a REDIRECT changes the target and ends in
  \<^verbatim>\<open>return session.Connect()\<close>, which is \<open>Again\<close>; everything else is an error.
\<close>

datatype connect_next = Handshaken | Again | Fail error

definition Connect_reply :: "Lib \<Rightarrow> Session \<Rightarrow> PacketInterface \<Rightarrow> connect_next \<times> Session" where
  "Connect_reply L s pck =
     (case pck of
        Iface (PAccept acceptPacket) \<Rightarrow>
          (Handshaken, s\<lparr>Context := (sessionCtx acceptPacket)\<lparr>handshakeComplete := True\<rparr>\<rparr>)
      | Iface (PRedirect redirectPacket) \<Rightarrow>
          (let o1 = (connOption s)\<lparr>connData := reconnectData redirectPacket\<rparr>;
               o2 = (if redirect_protocol L redirectPacket \<noteq> []
                     then o1\<lparr>Protocol := redirect_protocol L redirectPacket\<rparr> else o1);
               o3 = (if redirect_host L redirectPacket \<noteq> []
                     then o2\<lparr>Host := redirect_host L redirectPacket\<rparr> else o2)
           in if redirect_port L redirectPacket \<noteq> [] then
                (case Atoi L (redirect_port L redirectPacket) of
                   (n, ok) \<Rightarrow>
                     if ok then (Again, s\<lparr>connOption := o3\<lparr>Port := n\<rparr>\<rparr>)
                     else (Fail ErrRedirectWrongPort, s\<lparr>connOption := o3\<lparr>Port := n\<rparr>\<rparr>))
              else (Again, s\<lparr>connOption := o3\<rparr>))
      | Iface (PRefuse refusePacket) \<Rightarrow>
          (Fail (ErrRefused (UserReason refusePacket) (SystemReason refusePacket)
                   (message refusePacket)), s)
      | _ \<Rightarrow> (Fail ErrRefusedUnknownReason, s))"

subsection \<open>\<^verbatim>\<open>read\<close> and the readers\<close>

definition read :: "Lib \<Rightarrow> Session \<Rightarrow> int \<Rightarrow> ((bslice \<times> error option) \<times> Session) exec option" where
  "read L s numBytes =
     (if wrap64 (index s + numBytes) > int (length (inBuffer s)) then
        Option.bind (readPacket L s) (\<lambda>r. Some (read_fetched r numBytes))
      else Some (read_slice s numBytes))"

definition GetByte :: "Lib \<Rightarrow> Session \<Rightarrow> ((byte \<times> error option) \<times> Session) exec option" where
  "GetByte L s =
     Option.bind (read L s 1) (\<lambda>r.
       case r of
         Abort a \<Rightarrow> Some (Abort a)
       | Done ((_, Some err), s1) \<Rightarrow> Some (Done ((0, Some err), s1))
       | Done ((rb, None), s1) \<Rightarrow>
           (case bytes_of rb of
              [] \<Rightarrow> Some (Abort PanicSliceBounds)
            | b # _ \<Rightarrow> Some (Done ((b, None), s1))))"

text \<open>\<^verbatim>\<open>GetInt64\<close> from \<^verbatim>\<open>if size == 0\<close> on, with the values \<^verbatim>\<open>size\<close>, \<^verbatim>\<open>negFlag\<close> and
  \<^verbatim>\<open>bigEndian\<close> that the compressed prefix has set.\<close>

definition GetInt64_body ::
  "Lib \<Rightarrow> Session \<Rightarrow> int \<Rightarrow> bool \<Rightarrow> bool \<Rightarrow> ((64 word \<times> error option) \<times> Session) exec option"
where
  "GetInt64_body L s sz negFlag bigEndian =
     (if sz = 0 then Some (Done ((0, None), s))
      else
        Option.bind (read L s sz) (\<lambda>r.
          case r of
            Abort a \<Rightarrow> Some (Abort a)
          | Done ((_, Some err), s1) \<Rightarrow> Some (Done ((0, Some err), s1))
          | Done ((rb, None), s1) \<Rightarrow>
              if sz > 8 then Some (Abort PanicSliceBounds)
              else
                let ret = (if bigEndian
                           then BigEndian_Uint64 (replicate (nat (8 - sz)) 0 @ bytes_of rb)
                           else LittleEndian_Uint64 (bytes_of rb @ replicate (nat (8 - sz)) 0));
                    ret = (if negFlag then ret * (- 1) else ret)
                in Some (Done ((ret, None), s1))))"

definition GetInt64 ::
  "Lib \<Rightarrow> Session \<Rightarrow> int \<Rightarrow> bool \<Rightarrow> bool \<Rightarrow> ((64 word \<times> error option) \<times> Session) exec option"
where
  "GetInt64 L s sz compress bigEndian =
     (if compress then
        Option.bind (read L s 1) (\<lambda>r.
          case r of
            Abort a \<Rightarrow> Some (Abort a)
          | Done ((_, Some err), s1) \<Rightarrow> Some (Done ((0, Some err), s1))
          | Done ((rb, None), s1) \<Rightarrow>
              (case bytes_of rb of
                 [] \<Rightarrow> Some (Abort PanicSliceBounds)
               | b # _ \<Rightarrow>
                   if b AND 0x80 \<noteq> 0 then GetInt64_body L s1 (uint (b AND 0x7F)) True True
                   else GetInt64_body L s1 (uint b) False True))
      else GetInt64_body L s sz False bigEndian)"

text \<open>\<^verbatim>\<open>int\<close> has 64 bits, so \<^verbatim>\<open>int(temp)\<close> is the signed value of \<^verbatim>\<open>temp\<close>.\<close>

definition GetInt ::
  "Lib \<Rightarrow> Session \<Rightarrow> int \<Rightarrow> bool \<Rightarrow> bool \<Rightarrow> ((int \<times> error option) \<times> Session) exec option"
where
  "GetInt L s sz compress bigEndian =
     Option.bind (GetInt64 L s sz compress bigEndian) (\<lambda>r.
       case r of
         Abort a \<Rightarrow> Some (Abort a)
       | Done ((_, Some err), s1) \<Rightarrow> Some (Done ((0, Some err), s1))
       | Done ((temp, None), s1) \<Rightarrow> Some (Done ((sint temp, None), s1)))"

subsection \<open>\<^verbatim>\<open>GetClr\<close>\<close>

text \<open>The inner loop after a chunk header \<^verbatim>\<open>0xff\<close>; \<open>buff\<close> is the content of the local
  buffer. Leaving it also leaves the outer loop.\<close>

partial_function (option) GetClr_run ::
  "Lib \<Rightarrow> Session \<Rightarrow> byte list \<Rightarrow> ((bslice \<times> error option) \<times> Session) exec option"
where
  [code]: "GetClr_run L s buff =
     Option.bind (GetByte L s) (\<lambda>r.
       case r of
         Abort a \<Rightarrow> Some (Abort a)
       | Done ((_, Some err), s1) \<Rightarrow> Some (Done ((NilSlice, Some err), s1))
       | Done ((b, None), s1) \<Rightarrow>
           if b = 0 then Some (Done ((local_Bytes buff, None), s1))
           else if int (length (buff @ [b])) \<ge> 1024 * 4 then
             Some (Done ((local_Bytes (buff @ [b]), None), s1))
           else GetClr_run L s1 (buff @ [b]))"

text \<open>The loop of the branch \<^verbatim>\<open>!session.UseBigClrChunks\<close>.\<close>

partial_function (option) GetClr_small ::
  "Lib \<Rightarrow> Session \<Rightarrow> byte list \<Rightarrow> ((bslice \<times> error option) \<times> Session) exec option"
where
  [code]: "GetClr_small L s buff =
     Option.bind (GetByte L s) (\<lambda>r.
       case r of
         Abort a \<Rightarrow> Some (Abort a)
       | Done ((_, Some err), s1) \<Rightarrow> Some (Done ((NilSlice, Some err), s1))
       | Done ((h, None), s1) \<Rightarrow>
           if h = 0x00 then Some (Done ((local_Bytes buff, None), s1))
           else if h = 0xff then GetClr_run L s1 buff
           else if h \<ge> 64 then Some (Done ((NilSlice, Some (ErrInvalidChunkSize h)), s1))
           else
             Option.bind (read L s1 (uint h)) (\<lambda>r.
               case r of
                 Abort a \<Rightarrow> Some (Abort a)
               | Done ((_, Some err), s2) \<Rightarrow> Some (Done ((NilSlice, Some err), s2))
               | Done ((dat, None), s2) \<Rightarrow> GetClr_small L s2 (buff @ bytes_of dat)))"

text \<open>The last loop, reached with \<^verbatim>\<open>UseBigClrChunks\<close> set. When \<^verbatim>\<open>GetInt\<close> fails the loop
  is left and the bytes gathered so far are returned with the error.\<close>

partial_function (option) GetClr_big ::
  "Lib \<Rightarrow> Session \<Rightarrow> byte list \<Rightarrow> ((bslice \<times> error option) \<times> Session) exec option"
where
  [code]: "GetClr_big L s tempBuffer =
     Option.bind (GetInt L s (if UseBigClrChunks s then 4 else 1) True True) (\<lambda>r.
       case r of
         Abort a \<Rightarrow> Some (Abort a)
       | Done ((size1, err), s1) \<Rightarrow>
           if err \<noteq> None \<or> size1 = 0 then Some (Done ((local_Bytes tempBuffer, err), s1))
           else
             Option.bind (read L s1 size1) (\<lambda>r.
               case r of
                 Abort a \<Rightarrow> Some (Abort a)
               | Done ((_, Some err), s2) \<Rightarrow> Some (Done ((NilSlice, Some err), s2))
               | Done ((rb, None), s2) \<Rightarrow> GetClr_big L s2 (tempBuffer @ bytes_of rb)))"

definition GetClr :: "Lib \<Rightarrow> Session \<Rightarrow> ((bslice \<times> error option) \<times> Session) exec option" where
  "GetClr L s =
     Option.bind (GetByte L s) (\<lambda>r.
       case r of
         Abort a \<Rightarrow> Some (Abort a)
       | Done ((_, Some err), s1) \<Rightarrow> Some (Done ((NilSlice, Some err), s1))
       | Done ((sz, None), s1) \<Rightarrow>
           if sz = 0 \<or> sz = 0xFF then Some (Done ((NilSlice, None), s1))
           else if sz \<noteq> 0xFE then read L s1 (uint sz)
           else if \<not> UseBigClrChunks s1 then GetClr_small L s1 []
           else GetClr_big L s1 [])"

text \<open>\<^verbatim>\<open>GetString\<close>: the slice expression \<^verbatim>\<open>ret[:length]\<close> is evaluated whatever \<^verbatim>\<open>err\<close> is.\<close>

definition GetString :: "Lib \<Rightarrow> Session \<Rightarrow> int \<Rightarrow> ((byte list \<times> error option) \<times> Session) exec option" where
  "GetString L s len =
     Option.bind (GetClr L s) (\<lambda>r.
       case r of
         Abort a \<Rightarrow> Some (Abort a)
       | Done ((ret, err), s1) \<Rightarrow>
           (case reslice_to ret len of
              Abort a \<Rightarrow> Some (Abort a)
            | Done str \<Rightarrow> Some (Done ((str, err), s1))))"

subsection \<open>\<^verbatim>\<open>PutClr\<close>\<close>

text \<open>The loop \<^verbatim>\<open>for start < dataLen\<close>. With \<^verbatim>\<open>ClrChunkSize = 0\<close> it does not end.\<close>

partial_function (option) PutClr_loop :: "Session \<Rightarrow> byte list \<Rightarrow> int \<Rightarrow> int \<Rightarrow> Session exec option" where
  [code]: "PutClr_loop s data dataLen start =
     (if start < dataLen then
        (let e = start + ClrChunkSize s;
             e = (if e > dataLen then dataLen else e)
         in case go_slice data start e of
              Abort a \<Rightarrow> Some (Abort a)
            | Done temp \<Rightarrow>
                (case (if UseBigClrChunks s
                       then PutInt s (NInt (of_nat (length temp))) 4 True True
                       else Done (buf_WriteByte s (of_nat (length temp)))) of
                   Abort a \<Rightarrow> Some (Abort a)
                 | Done s1 \<Rightarrow>
                     PutClr_loop (buf_Write s1 temp) data dataLen (start + ClrChunkSize s)))
      else Some (Done s))"

definition PutClr :: "Session \<Rightarrow> byte list \<Rightarrow> Session exec option" where
  "PutClr s data =
     (let dataLen = int (length data) in
      if dataLen > 0xFC then
        Option.bind (PutClr_loop (buf_WriteByte s 0xFE) data dataLen 0) (\<lambda>r.
          case r of
            Abort a \<Rightarrow> Some (Abort a)
          | Done s1 \<Rightarrow> Some (Done (buf_WriteByte s1 0)))
      else if dataLen = 0 then Some (Done (buf_WriteByte s 0))
      else Some (Done (buf_Write (buf_WriteByte s (of_nat (length data))) data)))"

subsection \<open>\<^verbatim>\<open>NewSession\<close>, \<^verbatim>\<open>SaveState\<close>, \<^verbatim>\<open>LoadState\<close>\<close>

text \<open>\<^verbatim>\<open>NewSession\<close>; the context that \<^verbatim>\<open>NewSessionContext\<close> builds is the argument \<open>ctx\<close>.
  No array is allocated yet, and the allocator adds no spare capacity.\<close>

definition NewSession :: "ConnectionOption \<Rightarrow> SessionContext \<Rightarrow> Session" where
  "NewSession opt ctx =
     \<lparr>conn = None, sslConn = False, connOption = opt, Context = ctx, sendPcks = [],
      inBuffer = [], outBuffer = \<lparr>barr = 0, blen = 0\<rparr>, heap = [[]], allocs = [],
      index = 0, Summary = None, states = [], StrConv = False,
      UseBigClrChunks = False, ClrChunkSize = 0x40\<rparr>"

text \<open>\<^verbatim>\<open>SaveState\<close> stores the slice \<^verbatim>\<open>outBuffer.Bytes()\<close>, that is the array of the buffer and
  its current length, not a copy of the bytes.\<close>

definition SaveState :: "Session \<Rightarrow> Session" where
  "SaveState s =
     s\<lparr>states := states s @
          [\<lparr>st_summary = Summary s, st_sendPcks = sendPcks s, st_inBuffer = inBuffer s,
            st_outBuffer = outBuffer s, st_index = index s\<rparr>]\<rparr>"

definition LoadState :: "Session \<Rightarrow> Session" where
  "LoadState s =
     (let idx = int (length (states s)) - 1 in
      if idx \<ge> 0 then
        (let currentState = states s ! nat idx;
             s = s\<lparr>Summary := st_summary currentState\<rparr>;
             s = s\<lparr>sendPcks := st_sendPcks currentState\<rparr>;
             s = s\<lparr>inBuffer := st_inBuffer currentState\<rparr>;
             s = buf_Reset s;
             s = buf_Write s (take (blen (st_outBuffer currentState))
                                   (heap s ! barr (st_outBuffer currentState)));
             s = s\<lparr>index := st_index currentState\<rparr>
         in if idx = 0 then s\<lparr>states := []\<rparr>
            else s\<lparr>states := take (nat idx) (states s)\<rparr>)
      else s)"


subsection \<open>Definitions used in the statements and proofs\<close>

text \<open>An in-buffer seeded with the bytes \<open>bs\<close>, the cursor at its start.\<close>

definition seed :: "Session \<Rightarrow> byte list \<Rightarrow> Session" where
  "seed s bs = s\<lparr>inBuffer := bs, index := 0\<rparr>"

text \<open>The \<open>k\<close> low bytes of a 64-bit value, most significant first.\<close>

primrec be_enc :: "nat \<Rightarrow> 64 word \<Rightarrow> byte list" where
  "be_enc 0 v = []"
| "be_enc (Suc k) v = ucast (drop_bit (8 * k) v) # be_enc k v"

text \<open>The two wire forms of an integer, as section 4.A of the specification describes
  them: the compressed form is a length byte and the significant bytes, a single zero
  byte for 0; the raw form is \<open>k\<close> bytes in the given byte order.\<close>

definition compressed :: "64 word \<Rightarrow> byte list" where
  "compressed num =
     (let temp = TrimLeft0 (BigEndian_PutUint64 num) in
      if temp = [] then [0] else of_nat (length temp) # temp)"

definition raw :: "64 word \<Rightarrow> nat \<Rightarrow> bool \<Rightarrow> byte list" where
  "raw num k be = (if be then be_enc k num else rev (be_enc k num))"

subsection \<open>A sample implementation of the package functions\<close>

text \<open>
  Modelled from the spec: the functions of \<open>Lib\<close>, whose code is not in \<^verbatim>\<open>session.go\<close>,
  for running the model on concrete inputs. A frame is the 8-byte header followed by the
  body; the header has the length of the frame in bytes 0 to 3 when the handshake is
  complete and the version is at least 315, in bytes 0 and 1 otherwise, and the type tag
  in byte 4 (sections 4.B and 6 of the specification). The payload of a DATA packet
  starts at offset 10; a marker has its type at offset 8 and its data at offset 10. A
  redirect address is \<^verbatim>\<open>host:port\<close>, as in the example of section 8.
\<close>

definition frame_header :: "SessionContext \<Rightarrow> nat \<Rightarrow> byte \<Rightarrow> byte list" where
  "frame_header ctx len ty =
     (if handshakeComplete ctx \<and> Version ctx \<ge> 315
      then BigEndian_PutUint32 (of_nat len) @ [ty, 0, 0, 0]
      else BigEndian_PutUint16 (of_nat len) @ [0, 0, ty, 0, 0, 0])"

definition demo_lib :: Lib where
  "demo_lib =
     \<lparr>newDataPacket = (\<lambda>payload ctx. (Some \<lparr>buffer = payload\<rparr>, None)),
      newDataPacketFromData = (\<lambda>pd ctx. (Some \<lparr>buffer = drop 10 pd\<rparr>, None)),
      newMarkerPacketFromData = (\<lambda>pd ctx.
         if length pd < 11 then None else Some \<lparr>markerType = pd ! 8, markerData = pd ! 10\<rparr>),
      newMarkerPacket = (\<lambda>d ctx. \<lparr>markerType = 1, markerData = d\<rparr>),
      newRedirectPacketFromData = (\<lambda>pd.
         \<lparr>packet = \<lparr>pck_length = ucast (BigEndian_Uint16 (take 2 pd)), dataOffset = 10,
                    flag = pd ! 5\<rparr>,
          redirectAddr = [], reconnectData = []\<rparr>),
      newAcceptPacketFromData = (\<lambda>pd ctx. \<lparr>sessionCtx = ctx\<rparr>),
      newRefusePacketFromData = (\<lambda>pd.
         \<lparr>UserReason = pd ! 8, SystemReason = pd ! 9, message = drop 12 pd\<rparr>),
      redirect_protocol = (\<lambda>r. []),
      redirect_host = (\<lambda>r. takeWhile (\<lambda>b. b \<noteq> 58) (redirectAddr r)),
      redirect_port = (\<lambda>r. drop 1 (dropWhile (\<lambda>b. b \<noteq> 58) (redirectAddr r))),
      Atoi = (\<lambda>bs. (foldl (\<lambda>n b. 10 * n + (uint b - 48)) 0 bs,
                       bs \<noteq> [] \<and> list_all (\<lambda>b. 48 \<le> b \<and> b \<le> 57) bs)),
      bytes = (\<lambda>pck ctx. case pck of
          PData d \<Rightarrow> frame_header ctx (10 + length (buffer d)) DATA @ [0, 0] @ buffer d
        | PMarker m \<Rightarrow> frame_header ctx 11 MARKER @ [markerType m, 0, markerData m]
        | PConnect c \<Rightarrow>
            BigEndian_PutUint16 (of_nat (8 + length (cbuffer c))) @ [0, 0, CONNECT, 0, 0, 0] @
            cbuffer c
        | _ \<Rightarrow> []),
      segmentLen_of = (\<lambda>ctx. SessionDataUnit ctx - 20),
      Decode = (\<lambda>bs. bs),
      NewSummary = (\<lambda>s. ((Some \<lparr>RetCode = 0, ErrorMessage = []\<rparr>, None), s))\<rparr>"

definition demo_opt :: ConnectionOption where
  "demo_opt =
     \<lparr>Host = [], Port = 1521, Protocol = [], SSL = False, SSLVerify = False, connData = []\<rparr>"

definition demo_ctx :: SessionContext where
  "demo_ctx = \<lparr>Version = 318, SessionDataUnit = 8192, handshakeComplete = True, HashAlgo = None\<rparr>"

definition demo_session :: Session where
  "demo_session = NewSession demo_opt demo_ctx"

definition demo_connected :: "(byte list \<times> net_error option) list \<Rightarrow> Session" where
  "demo_connected script = demo_session\<lparr>conn := Some \<lparr>rx = script, tx = [], wres = []\<rparr>\<rparr>"

text \<open>The bytes of the out-buffer after a writer has returned.\<close>

definition written :: "Session exec \<Rightarrow> byte list" where
  "written r = (case r of Done s \<Rightarrow> buf_Bytes s | Abort a \<Rightarrow> [])"

text \<open>The script that is left when a frame has been read from the first entry, of which
  \<open>nxt\<close> are the bytes behind the frame.\<close>

definition after_frame ::
  "byte list \<Rightarrow> (byte list \<times> net_error option) list \<Rightarrow> (byte list \<times> net_error option) list" where
  "after_frame nxt rest = (if nxt = [] then rest else (nxt, None) # rest)"

text \<open>The next \<open>n\<close> writes succeed.\<close>

definition writes_ok :: "nat \<Rightarrow> transport \<Rightarrow> bool" where
  "writes_ok n c = list_all (\<lambda>w. w = None) (take n (wres c))"

text \<open>A caller that sends the packets \<open>ps\<close> one after the other with \<^verbatim>\<open>writePacket\<close> and
  stops at the first error.\<close>

fun writePackets :: "Lib \<Rightarrow> Session \<Rightarrow> packet list \<Rightarrow> (error option \<times> Session) exec" where
  "writePackets L s [] = Done (None, s)"
| "writePackets L s (p # ps) =
     (case writePacket L s p of
        Abort a \<Rightarrow> Abort a
      | Done (Some e, s') \<Rightarrow> Done (Some e, s')
      | Done (None, s') \<Rightarrow> writePackets L s' ps)"

text \<open>The session after the packets \<open>ps\<close> have been sent with \<^verbatim>\<open>writePacket\<close>, every write
  succeeding: they are in \<open>sendPcks\<close>, and their bytes under the context of the session
  are in \<open>tx\<close>, sent through the TLS client when there is one.\<close>

definition sent :: "Lib \<Rightarrow> Session \<Rightarrow> transport \<Rightarrow> packet list \<Rightarrow> Session" where
  "sent L s c ps =
     s\<lparr>sendPcks := sendPcks s @ ps,
       conn := Some (c\<lparr>tx := tx c @ map (\<lambda>p. (sslConn s, bytes L p (Context s))) ps,
                       wres := drop (length ps) (wres c)\<rparr>)\<rparr>"

text \<open>The session after the packets \<open>pcks\<close> have been written again through the handle
  that the RESEND branch chooses.\<close>

definition replayed :: "Lib \<Rightarrow> Session \<Rightarrow> transport \<Rightarrow> packet list \<Rightarrow> Session" where
  "replayed L s c pcks =
     s\<lparr>sslConn := (sslConn s \<or> (SSL (connOption s) \<and> pcks \<noteq> [])),
       conn := Some (c\<lparr>tx := tx c @ map (\<lambda>p. (SSL (connOption s), bytes L p (Context s))) pcks,
                       wres := drop (length pcks) (wres c)\<rparr>)\<rparr>"

text \<open>A context before the handshake is complete.\<close>

definition demo_ctx16 :: SessionContext where
  "demo_ctx16 = \<lparr>Version = 318, SessionDataUnit = 8192, handshakeComplete = False, HashAlgo = None\<rparr>"


section \<open>Verification\<close>

subsection \<open>The out-buffer and the byte order lemmas\<close>

lemma buf_Bytes_Write: "buf_ok s \<Longrightarrow> buf_Bytes (buf_Write s p) = buf_Bytes s @ p"
  by (auto simp: buf_ok_def buf_Bytes_def buf_Write_def Let_def nth_append)

lemma buf_ok_Write: "buf_ok s \<Longrightarrow> buf_ok (buf_Write s p)"
  by (auto simp: buf_ok_def buf_Write_def Let_def nth_append)

lemma buf_Bytes_WriteByte: "buf_ok s \<Longrightarrow> buf_Bytes (buf_WriteByte s c) = buf_Bytes s @ [c]"
  by (simp add: buf_WriteByte_def buf_Bytes_Write)

lemma buf_ok_WriteByte: "buf_ok s \<Longrightarrow> buf_ok (buf_WriteByte s c)"
  by (simp add: buf_WriteByte_def buf_ok_Write)

lemma word_bound_bit: "uint (w::'a::len word) < 2 ^ n \<Longrightarrow> bit w k \<Longrightarrow> k < n"
proof -
  assume a: "uint w < 2 ^ n" and b: "bit w k"
  have "take_bit n (uint w) = uint w" using a by (simp add: take_bit_int_eq_self)
  then have "bit (take_bit n (uint w)) k" using b bit_imp_le_length[OF b] by (simp add: bit_uint_iff)
  then show "k < n" by (simp add: bit_take_bit_iff)
qed

lemma top_byte_neg: "(num::64 word) <s 0 \<Longrightarrow> (ucast (drop_bit 56 num) :: byte) \<noteq> 0"
proof -
  assume "num <s 0"
  then have b: "bit num 63" 
    using bit_last_iff[of num] by (simp add: word_sless_alt)
  show ?thesis
  proof
    assume "(ucast (drop_bit 56 num) :: byte) = 0"
    then have "\<not> bit (ucast (drop_bit 56 num) :: byte) 7" by simp
    then show False using b by (simp add: bit_simps)
  qed
qed

lemma byte_le8_and80: "(x::byte) \<le> 8 \<Longrightarrow> x AND 0x80 = 0"
proof -
  assume "x \<le> 8"
  then have "uint x < 2 ^ 7" by (simp add: word_le_def)
  then have "\<not> bit x 7" using word_bound_bit[of x 7 7] by auto
  then show ?thesis using and_exp_eq_0_iff_not_bit[of x 7] by simp
qed

lemma be_step: "push_bit (8 * k) (push_bit 8 a OR ucast (ucast (drop_bit (8 * k) v) :: byte)) OR take_bit (8 * k) v
   = push_bit (8 * Suc k) a OR take_bit (8 * Suc k) (v::64 word)"
  apply (rule bit_eqI)
  apply (auto simp add: bit_simps add.commute)
  done

lemma foldl_be_enc:
  "foldl (\<lambda>acc x. push_bit 8 acc OR ucast x) a (be_enc k v) = push_bit (8 * k) a OR take_bit (8 * k) (v::64 word)"
proof (induction k arbitrary: a)
  case 0 then show ?case by simp
next
  case (Suc k)
  show ?case by (simp only: be_enc.simps foldl_Cons Suc.IH be_step)
qed

lemma BE_Uint64_be_enc: "BigEndian_Uint64 (be_enc k v) = take_bit (8 * k) v"
  by (simp add: BigEndian_Uint64_def foldl_be_enc)

lemma BE_Uint64_zeros: "BigEndian_Uint64 (replicate j 0 @ bs) = BigEndian_Uint64 bs"
  by (induction j) (simp_all add: BigEndian_Uint64_def)

lemma BE_Uint64_trim: "BigEndian_Uint64 (TrimLeft0 bs) = BigEndian_Uint64 bs"
  by (induction bs) (simp_all add: BigEndian_Uint64_def TrimLeft0_def)

lemma PutUint64_be_enc: "BigEndian_PutUint64 v = be_enc 8 v"
  by (simp add: BigEndian_PutUint64_def eval_nat_numeral)

lemma PutUint32_be_enc: "BigEndian_PutUint32 (ucast v) = be_enc 4 v"
  apply (simp add: BigEndian_PutUint32_def eval_nat_numeral)
  apply (intro conjI; rule bit_eqI; auto simp add: bit_simps)
  done

lemma PutUint16_be_enc: "BigEndian_PutUint16 (ucast v) = be_enc 2 v"
  apply (simp add: BigEndian_PutUint16_def eval_nat_numeral)
  apply (intro conjI; rule bit_eqI; auto simp add: bit_simps)
  done

lemma take_bit_bounded: "uint (v::64 word) < 2 ^ n \<Longrightarrow> take_bit n v = v"
  by (rule bit_eqI) (auto simp add: bit_simps dest: word_bound_bit)

lemma be_enc_pad: "uint v < 2 ^ (8 * k) \<Longrightarrow> be_enc (j + k) v = replicate j 0 @ be_enc k v"
proof (induction j)
  case 0 then show ?case by simp
next
  case (Suc j)
  have "(ucast (drop_bit (8 * (j + k)) v) :: byte) = 0"
    by (rule bit_eqI) (use Suc.prems in \<open>auto simp add: bit_simps dest!: word_bound_bit\<close>)
  with Suc show ?case by simp
qed

lemma TrimLeft0_zeros: "TrimLeft0 (replicate j 0 @ xs) = TrimLeft0 xs"
  by (induction j) (simp_all add: TrimLeft0_def)

lemma length_TrimLeft0: "length (TrimLeft0 xs) \<le> length xs"
  by (simp add: TrimLeft0_def length_dropWhile_le)

lemma length_be_enc: "length (be_enc k v) = k"
  by (induction k) simp_all

lemma trim_len: "uint v < 2 ^ (8 * k) \<Longrightarrow> k \<le> 8 \<Longrightarrow> length (TrimLeft0 (BigEndian_PutUint64 v)) \<le> k"
proof -
  assume a: "uint v < 2 ^ (8 * k)" and k: "k \<le> 8"
  have "be_enc 8 v = replicate (8 - k) 0 @ be_enc k v"
    using be_enc_pad[OF a, of "8 - k"] k by simp
  then have "TrimLeft0 (be_enc 8 v) = TrimLeft0 (be_enc k v)" by (simp add: TrimLeft0_zeros)
  then show ?thesis using length_TrimLeft0[of "be_enc k v"] by (simp add: PutUint64_be_enc length_be_enc)
qed

lemma LE_Uint64_rev: "LittleEndian_Uint64 bs = BigEndian_Uint64 (rev bs)"
  by (simp add: LittleEndian_Uint64_def BigEndian_Uint64_def foldr_conv_foldl)

lemma LE16_rev: "LittleEndian_PutUint16 v = rev (BigEndian_PutUint16 v)"
  by (simp add: LittleEndian_PutUint16_def BigEndian_PutUint16_def)
lemma LE32_rev: "LittleEndian_PutUint32 v = rev (BigEndian_PutUint32 v)"
  by (simp add: LittleEndian_PutUint32_def BigEndian_PutUint32_def)
lemma LE64_rev: "LittleEndian_PutUint64 v = rev (BigEndian_PutUint64 v)"
  by (simp add: LittleEndian_PutUint64_def BigEndian_PutUint64_def)

subsection \<open>Reading from the in-buffer\<close>

lemma wrap64_id: "- (2 ^ 63) \<le> i \<Longrightarrow> i < 2 ^ 63 \<Longrightarrow> wrap64 i = i"
proof -
  assume a: "- (2 ^ 63) \<le> i" "i < 2 ^ 63"
  have "(i + 2 ^ 63) mod 2 ^ 64 = i + 2 ^ 63"
    by (rule mod_pos_pos_trivial) (use a in simp_all)
  then show ?thesis by (simp add: wrap64_def)
qed

lemma wrap64_len: "m + n < 2 ^ 63 \<Longrightarrow> wrap64 (int m + int n) = int m + int n"
proof -
  assume "m + n < 2 ^ 63"
  then have "int (m + n) < 2 ^ 63" by (simp only: of_nat_less_numeral_power_cancel_iff)
  then show ?thesis by (intro wrap64_id) simp_all
qed

lemma read_at:
  "inBuffer s = pre @ bs @ post \<Longrightarrow> index s = int (length pre) \<Longrightarrow> n = int (length bs) \<Longrightarrow>
   length pre + length bs < 2 ^ 63 \<Longrightarrow>
   read L s n = Some (Done ((Slice bs post, None), s\<lparr>index := int (length pre) + n\<rparr>))"
  by (simp add: read_def read_slice_def Let_def wrap64_len)

lemma GetByte_at:
  "inBuffer s = pre @ b # post \<Longrightarrow> index s = int (length pre) \<Longrightarrow> length pre + 1 < 2 ^ 63 \<Longrightarrow>
   GetByte L s = Some (Done ((b, None), s\<lparr>index := int (length pre) + 1\<rparr>))"
  using read_at[of s pre "[b]" post 1 L] by (simp add: GetByte_def)

lemma GetInt64_body_at:
  assumes "inBuffer s = pre @ bs @ post" "index s = int (length pre)" "bs \<noteq> []" "length bs \<le> 8"
    "length pre + length bs < 2 ^ 63"
  shows "GetInt64_body L s (int (length bs)) negFlag bigEndian =
     Some (Done ((let r = (if bigEndian then BigEndian_Uint64 bs else BigEndian_Uint64 (rev bs))
                  in if negFlag then r * (- 1) else r, None),
                 s\<lparr>index := int (length pre) + int (length bs)\<rparr>))"
proof -
  have n: "nat (8 - int (length bs)) = 8 - length bs" using assms(4) by simp
  show ?thesis
    using assms read_at[OF assms(1,2) refl assms(5), of L]
    by (simp add: GetInt64_body_def Let_def BE_Uint64_zeros LE_Uint64_rev n)
qed
lemma raw_int_bytes_enc:
  "sz = 2 \<or> sz = 4 \<or> sz = 8 \<Longrightarrow>
   raw_int_bytes num sz be = (if be then be_enc (unat sz) num else rev (be_enc (unat sz) num))"
  by (auto simp add: raw_int_bytes_def PutUint64_be_enc PutUint32_be_enc PutUint16_be_enc
        LE16_rev LE32_rev LE64_rev)

lemma be_enc_1: "be_enc (Suc 0) num = [ucast num]"
  by simp

lemma sz_cases: "sz \<in> {1, 2, 4, 8::byte} \<Longrightarrow> unat sz \<le> 8 \<and> 0 < unat sz \<and> uint sz = int (unat sz)"
  by auto

text \<open>reading back k raw bytes\<close>
lemma GetInt64_raw:
  assumes k: "0 < k" "k \<le> 8" and b: "uint num < 2 ^ (8 * k)"
  shows "GetInt64 L (seed s (if be then be_enc k num else rev (be_enc k num))) (int k) False be
     = Some (Done ((num, None), (seed s (if be then be_enc k num else rev (be_enc k num)))\<lparr>index := int k\<rparr>))"
proof -
  let ?bs = "if be then be_enc k num else rev (be_enc k num)"
  have l: "length ?bs = k" by (simp add: length_be_enc)
  have ne: "?bs \<noteq> []" using k l by (metis length_0_conv less_numeral_extra(3))
  have "GetInt64_body L (seed s ?bs) (int (length ?bs)) False be =
     Some (Done ((let r = (if be then BigEndian_Uint64 ?bs else BigEndian_Uint64 (rev ?bs))
                  in if False then r * (- 1) else r, None),
                 (seed s ?bs)\<lparr>index := int (length ([]::byte list)) + int (length ?bs)\<rparr>))"
    using GetInt64_body_at[of "seed s ?bs" "[]" ?bs "[]" L False be] ne l k
    by (simp add: seed_def)
  then show ?thesis
    using l by (simp add: GetInt64_def BE_Uint64_be_enc take_bit_bounded[OF b] Let_def)
qed

lemma unat_len_byte: "n \<le> 8 \<Longrightarrow> unat (of_nat n :: byte) = n"
  by (simp add: unat_of_nat)

text \<open>reading back a compressed unsigned value\<close>
lemma GetInt64_compressed:
  fixes num :: "64 word"
  defines "temp \<equiv> TrimLeft0 (BigEndian_PutUint64 num)"
  shows "GetInt64 L (seed s (if temp = [] then [0] else of_nat (length temp) # temp)) sz True be
     = Some (Done ((num, None), (seed s (if temp = [] then [0] else of_nat (length temp) # temp))
           \<lparr>index := 1 + int (length temp)\<rparr>))"
proof -
  have len: "length temp \<le> 8"
    using length_TrimLeft0[of "BigEndian_PutUint64 num"] by (simp add: temp_def PutUint64_be_enc length_be_enc)
  have val: "BigEndian_Uint64 temp = num"
    by (simp add: temp_def BE_Uint64_trim PutUint64_be_enc BE_Uint64_be_enc take_bit_word_eq_self)
  show ?thesis
  proof (cases "temp = []")
    case True
    then have "num = 0" using val by (simp add: BigEndian_Uint64_def)
    with True show ?thesis
      using read_at[of "seed s [0]" "[]" "[0]" "[]" 1 L]
      by (simp add: GetInt64_def seed_def GetInt64_body_def)
  next
    case False
    let ?b = "of_nat (length temp) :: byte"
    let ?s0 = "seed s (?b # temp)"
    let ?s1 = "?s0\<lparr>index := 1\<rparr>"
    have ub: "uint ?b = int (length temp)" using len by (simp add: uint_nat unat_len_byte)
    have "?b \<le> 8" using len by (simp add: word_le_nat_alt unat_len_byte)
    then have nb: "?b AND 0x80 = 0" by (rule byte_le8_and80)
    have r1: "read L ?s0 1 = Some (Done ((Slice [?b] temp, None), ?s1))"
      using read_at[of ?s0 "[]" "[?b]" temp 1 L] by (simp add: seed_def)
    have r2: "GetInt64_body L ?s1 (int (length temp)) False True =
        Some (Done ((let r = (if True then BigEndian_Uint64 temp else BigEndian_Uint64 (rev temp))
                  in if False then r * (- 1) else r, None),
                 ?s1\<lparr>index := int (length [?b]) + int (length temp)\<rparr>))"
      using GetInt64_body_at[of ?s1 "[?b]" temp "[]" L False True] False len
      by (simp add: seed_def)
    show ?thesis using False r1 r2 nb ub val
      by (simp add: GetInt64_def seed_def)
  qed
qed
lemma size_byte:
  assumes "length temp \<le> unat (sz::byte)" 
  shows "(if sz > of_nat (length temp) then of_nat (length temp) else sz) = (of_nat (length temp) :: byte)"
proof (cases "sz > of_nat (length temp)")
  case True then show ?thesis by simp
next
  case False
  have l: "length temp < 256" using assms unsigned_less[of sz, where 'a=nat] by simp
  have u: "unat (of_nat (length temp) :: byte) = length temp" using l by (simp add: unat_of_nat)
  have "unat sz \<le> length temp" using False u by (simp add: word_less_nat_alt)
  then have "unat sz = unat (of_nat (length temp) :: byte)" using assms u by simp
  then have "sz = of_nat (length temp)" by (simp only: word_unat_eq_iff)
  then show ?thesis by simp
qed

lemma size_byte0: 
  assumes "length temp \<le> 8" 
  shows "((of_nat (length temp) :: byte) = 0) = (temp = [])"
proof
  assume "(of_nat (length temp) :: byte) = 0"
  then have "unat (of_nat (length temp) :: byte) = 0" by simp
  then show "temp = []" using unat_len_byte[OF assms] by simp
next
  assume "temp = []" then show "(of_nat (length temp) :: byte) = 0" by simp
qed

lemma unat_sz: "sz \<in> {1, 2, 4, 8::byte} \<Longrightarrow> unat sz \<in> {1, 2, 4, 8} \<and> uint sz = int (unat sz)"
  by auto
lemma PutUint_written:
  assumes "buf_ok s0" "to64 n = Some num" "sz \<in> {1, 2, 4, 8}" "uint num < 2 ^ (8 * unat sz)" "sz \<noteq> 1 \<or> \<not> compress"
  shows "\<exists>s1. PutUint s0 n sz be compress = Done s1 \<and>
     buf_Bytes s1 = buf_Bytes s0 @ (if compress then compressed num else raw num (unat sz) be)"
proof (cases "sz = 1")
  case True
  then show ?thesis using assms
    by (simp add: PutUint_def buf_Bytes_WriteByte raw_def)
next
  case False
  then have sz: "sz = 2 \<or> sz = 4 \<or> sz = 8" using assms(3) by auto
  then have k: "unat sz \<le> 8" by auto
  let ?temp = "TrimLeft0 (BigEndian_PutUint64 num)"
  have tl: "length ?temp \<le> unat sz" using trim_len[OF assms(4) k] .
  then have t8: "length ?temp \<le> 8" using k by simp
  show ?thesis using False assms(1,2) sz
    by (auto simp add: PutUint_def Let_def size_byte[OF tl] size_byte0[OF t8] compressed_def raw_def
          raw_int_bytes_enc buf_Bytes_WriteByte buf_Bytes_Write buf_ok_WriteByte)
qed
lemma PutInt_written:
  assumes "buf_ok s0" "to64 n = Some num" "sz \<in> {1, 2, 4, 8}" "uint num < 2 ^ (8 * unat sz)" "\<not> (compress \<and> num <s 0)"
  shows "\<exists>s1. PutInt s0 n sz be compress = Done s1 \<and>
     buf_Bytes s1 = buf_Bytes s0 @ (if compress then compressed num else raw num (unat sz) be)"
proof -
  have k: "unat sz \<le> 8" using assms(3) by auto
  let ?temp = "TrimLeft0 (BigEndian_PutUint64 num)"
  have tl: "length ?temp \<le> unat sz" using trim_len[OF assms(4) k] .
  then have t8: "length ?temp \<le> 8" using k by simp
  show ?thesis
  proof (cases compress)
    case True
    then show ?thesis using assms(1,2,5)
      by (auto simp add: PutInt_def Let_def size_byte[OF tl] size_byte0[OF t8] compressed_def
          buf_Bytes_WriteByte buf_Bytes_Write buf_ok_WriteByte)
  next
    case False
    show ?thesis
    proof (cases "sz = 1")
      case True
      then show ?thesis using \<open>\<not> compress\<close> assms by (simp add: PutInt_def buf_Bytes_WriteByte raw_def)
    next
      case False
      then have sz: "sz = 2 \<or> sz = 4 \<or> sz = 8" using assms(3) by auto
      then show ?thesis using \<open>\<not> compress\<close> False assms(1,2)
        by (auto simp add: PutInt_def raw_def raw_int_bytes_enc buf_Bytes_Write)
    qed
  qed
qed
lemma GetInt64_back_compressed:
  "GetInt64 L (seed s (compressed num)) sz True be
    = Some (Done ((num, None), (seed s (compressed num))\<lparr>index := int (length (compressed num))\<rparr>))"
proof -
  let ?temp = "TrimLeft0 (BigEndian_PutUint64 num)"
  have c: "compressed num = (if ?temp = [] then [0] else of_nat (length ?temp) # ?temp)"
    by (simp add: compressed_def Let_def)
  have l: "int (length (compressed num)) = 1 + int (length ?temp)"
    by (simp add: c)
  show ?thesis
    unfolding l unfolding c by (rule GetInt64_compressed)
qed

lemma GetInt64_back_raw:
  assumes "sz \<in> {1, 2, 4, 8::byte}" "uint num < 2 ^ (8 * unat sz)"
  shows "GetInt64 L (seed s (raw num (unat sz) be)) (uint sz) False be
    = Some (Done ((num, None), (seed s (raw num (unat sz) be))\<lparr>index := int (length (raw num (unat sz) be))\<rparr>))"
proof -
  have k: "0 < unat sz" "unat sz \<le> 8" "uint sz = int (unat sz)" using sz_cases[OF assms(1)] by simp_all
  have l: "length (raw num (unat sz) be) = unat sz" by (simp add: raw_def length_be_enc)
  show ?thesis unfolding l k(3) unfolding raw_def
    by (rule GetInt64_raw[OF k(1,2) assms(2)])
qed

lemma GetInt64_back:
  assumes "sz \<in> {1, 2, 4, 8::byte}" "uint num < 2 ^ (8 * unat sz)"
  shows "GetInt64 L (seed s (if compress then compressed num else raw num (unat sz) be)) (uint sz) compress be
    = Some (Done ((num, None), (seed s (if compress then compressed num else raw num (unat sz) be))
        \<lparr>index := int (length (if compress then compressed num else raw num (unat sz) be))\<rparr>))"
proof (cases compress)
  case True
  then have e: "compress = True" by simp
  show ?thesis unfolding e if_True by (rule GetInt64_back_compressed)
next
  case False
  then have e: "compress = False" by simp
  show ?thesis unfolding e if_False by (rule GetInt64_back_raw[OF assms])
qed


subsection \<open>C2: integers written and read back\<close>

text \<open>
  C2, as amended. Let \<open>num\<close> be the 64 bits of the argument (\<open>to64\<close>) and let its
  unsigned value fit \<open>sz\<close> bytes, \<open>sz\<close> one of 1, 2, 4, 8. Written by \<^verbatim>\<open>PutUint\<close> into an
  empty out-buffer and read by \<^verbatim>\<open>GetInt64\<close> with the same \<open>sz\<close>, \<open>compress\<close> and
  \<open>bigEndian\<close> from an in-buffer seeded with the bytes written, the value comes back as
  the \<^verbatim>\<open>int64\<close> with the bits \<open>num\<close>, with no error and with all the bytes consumed,
  except for \<open>sz = 1\<close> with \<open>compress\<close>; written by \<^verbatim>\<open>PutInt\<close> it comes back for every
  \<open>sz\<close>, except for a negative value with \<open>compress\<close>. A negative value has its
  unsigned value in range only at \<open>sz = 8\<close>.
\<close>

theorem int_roundtrip:
  assumes "buf_ok s0" "buf_Bytes s0 = []" "to64 n = Some num" "sz \<in> {1, 2, 4, 8}"
    "uint num < 2 ^ (8 * unat sz)"
  shows "(sz \<noteq> 1 \<or> \<not> compress \<longrightarrow>
           (\<exists>s1. PutUint s0 n sz be compress = Done s1 \<and>
              GetInt64 L (seed s (buf_Bytes s1)) (uint sz) compress be =
                Some (Done ((num, None), (seed s (buf_Bytes s1))\<lparr>index := int (length (buf_Bytes s1))\<rparr>))))
       \<and> (\<not> (compress \<and> num <s 0) \<longrightarrow>
           (\<exists>s1. PutInt s0 n sz be compress = Done s1 \<and>
              GetInt64 L (seed s (buf_Bytes s1)) (uint sz) compress be =
                Some (Done ((num, None), (seed s (buf_Bytes s1))\<lparr>index := int (length (buf_Bytes s1))\<rparr>))))"
proof (intro conjI impI)
  assume a: "sz \<noteq> 1 \<or> \<not> compress"
  obtain s1 where s1: "PutUint s0 n sz be compress = Done s1"
    "buf_Bytes s1 = buf_Bytes s0 @ (if compress then compressed num else raw num (unat sz) be)"
    using PutUint_written[OF assms(1,3,4,5) a] by blast
  show "\<exists>s1. PutUint s0 n sz be compress = Done s1 \<and>
              GetInt64 L (seed s (buf_Bytes s1)) (uint sz) compress be =
                Some (Done ((num, None), (seed s (buf_Bytes s1))\<lparr>index := int (length (buf_Bytes s1))\<rparr>))"
    using s1 assms(2) GetInt64_back[OF assms(4,5), of L s compress be] by simp
next
  assume a: "\<not> (compress \<and> num <s 0)"
  obtain s1 where s1: "PutInt s0 n sz be compress = Done s1"
    "buf_Bytes s1 = buf_Bytes s0 @ (if compress then compressed num else raw num (unat sz) be)"
    using PutInt_written[OF assms(1,3,4,5) a] by blast
  show "\<exists>s1. PutInt s0 n sz be compress = Done s1 \<and>
              GetInt64 L (seed s (buf_Bytes s1)) (uint sz) compress be =
                Some (Done ((num, None), (seed s (buf_Bytes s1))\<lparr>index := int (length (buf_Bytes s1))\<rparr>))"
    using s1 assms(2) GetInt64_back[OF assms(4,5), of L s compress be] by simp
qed

text \<open>The theorem at the value 0x1234, written in 4 bytes, compressed.\<close>

theorem int_roundtrip_witness:
  "(\<exists>s1. PutUint demo_session (NUint32 0x1234) 4 False True = Done s1 \<and>
      GetInt64 demo_lib (seed demo_session (buf_Bytes s1)) 4 True False =
        Some (Done ((0x1234, None), (seed demo_session (buf_Bytes s1))\<lparr>index := int (length (buf_Bytes s1))\<rparr>)))
   \<and> (\<exists>s1. PutInt demo_session (NUint32 0x1234) 4 False True = Done s1 \<and>
      GetInt64 demo_lib (seed demo_session (buf_Bytes s1)) 4 True False =
        Some (Done ((0x1234, None), (seed demo_session (buf_Bytes s1))\<lparr>index := int (length (buf_Bytes s1))\<rparr>)))"
proof -
  have a: "buf_ok demo_session" "buf_Bytes demo_session = []"
    by (simp_all add: demo_session_def NewSession_def buf_ok_def buf_Bytes_def)
  have b: "to64 (NUint32 0x1234) = Some 0x1234" "(4::byte) \<in> {1, 2, 4, 8}"
     "uint (0x1234::64 word) < 2 ^ (8 * unat (4::byte))" "\<not> ((0x1234::64 word) <s 0)"
    by (simp_all add: word_sless_alt)
  show ?thesis
    using int_roundtrip[OF a b(1,2,3), where be=False and compress=True and L=demo_lib and s=demo_session] b(4) by simp
qed

text \<open>
  C2 as stated fails at two inputs. \<^verbatim>\<open>PutUint(uint8(128), 1, true, true)\<close> writes the
  single byte 0x80, which \<^verbatim>\<open>GetInt64(1, true, true)\<close> reads as a length byte: sign flag
  set, length 0, result 0. \<^verbatim>\<open>PutInt(int64(-1), 2, true, false)\<close> writes FF FF, which
  \<^verbatim>\<open>GetInt64(2, false, true)\<close> reads as 65535.
\<close>

theorem int_roundtrip_counterexample:
  "GetInt64 demo_lib (seed demo_session (written (PutUint demo_session (NUint8 128) 1 True True))) 1 True True
     = Some (Done ((0, None), (seed demo_session [128])\<lparr>index := 1\<rparr>))
   \<and> GetInt64 demo_lib (seed demo_session (written (PutInt demo_session (NInt64 (- 1)) 2 True False))) 2 False True
     = Some (Done ((65535, None), (seed demo_session [255, 255])\<lparr>index := 2\<rparr>))
   \<and> number_val (NUint8 128) = 128 \<and> number_val (NInt64 (- 1)) = - 1
   \<and> sint (0 :: 64 word) \<noteq> 128 \<and> sint (65535 :: 64 word) \<noteq> - 1"
  by code_simp

subsection \<open>C3: negative integers in the compressed form\<close>

text \<open>
  C3 says that \<^verbatim>\<open>PutInt\<close> with \<^verbatim>\<open>compress\<close> writes a negative value as the length of its
  magnitude with bit 0x80 set, followed by the magnitude. The code computes the bytes
  before it negates, and combines the length with 0x80 by \<^verbatim>\<open>&\<close>: for -1 it writes a zero
  length byte and the eight bytes FF (the claim: 81 01), for -300 a zero length byte and
  the eight bytes of the two's complement (the claim: 82 01 2C). Zero is written as a
  single zero byte, as the claim says.
\<close>

theorem PutInt_negative_compressed:
  "written (PutInt demo_session (NInt64 (- 1)) 4 True True) = [0, 255, 255, 255, 255, 255, 255, 255, 255]
   \<and> written (PutInt demo_session (NInt64 (- 300)) 2 False True) = [0, 255, 255, 255, 255, 255, 255, 0xFE, 0xD4]
   \<and> written (PutInt demo_session (NInt64 0) 4 True True) = [0]"
  by code_simp


subsection \<open>Reading a frame from the transport\<close>

lemma readBody_done: "len \<le> length acc \<Longrightarrow> readBody s len acc = Some (Done ((acc, None), s))"
  by (subst readBody.simps) simp

lemma readBody_avail:
  assumes "conn s = Some c" "rx c = (body @ nxt, None) # rest" "body \<noteq> []"
    "len = length acc + length body"
  shows "readBody s len acc =
     Some (Done ((acc @ body, None), s\<lparr>conn := Some (c\<lparr>rx := after_frame nxt rest\<rparr>)\<rparr>))"
proof -
  have r: "conn_Read (len - length acc) c =
      ((body, None), c\<lparr>rx := after_frame nxt rest\<rparr>)"
    using assms by (auto simp add: conn_Read_def after_frame_def)
  show ?thesis
    apply (subst readBody.simps)
    using assms r by (simp add: readBody_done)
qed

lemma conn_Read_head:
  assumes "rx c = (head @ t, None) # rest" "length head = 8"
  shows "conn_Read 8 c = ((head, None), c\<lparr>rx := after_frame t rest\<rparr>)"
  using assms by (auto simp add: conn_Read_def after_frame_def)

lemma read_frame:
  assumes "conn s = Some c" "rx c = (head @ body @ nxt, None) # rest" "length head = 8"
    "length body = unat (declared_length (Context s) head - 8)" "trials \<le> 3"
  shows "readPacketData_loop L s trials =
     (let s1 = s\<lparr>conn := Some (c\<lparr>rx := after_frame nxt rest\<rparr>)\<rparr> in
      if head ! 4 = RESEND then
        (case resend L s1 (sendPcks s) of
           Abort a \<Rightarrow> Some (Abort a)
         | Done (Some err, s3) \<Rightarrow> Some (Done (([], Some err), s3))
         | Done (None, s3) \<Rightarrow> readPacketData_loop L s3 (Suc trials))
      else Some (Done ((head @ body, None), s1)))"
proof -
  let ?s0 = "s\<lparr>conn := Some (c\<lparr>rx := after_frame (body @ nxt) rest\<rparr>)\<rparr>"
  let ?s1 = "s\<lparr>conn := Some (c\<lparr>rx := after_frame nxt rest\<rparr>)\<rparr>"
  have h: "conn_Read 8 c = ((head, None), c\<lparr>rx := after_frame (body @ nxt) rest\<rparr>)"
    using conn_Read_head[OF assms(2,3)] .
  have b: "readBody ?s0 (length body) [] = Some (Done ((body, None), ?s1))"
  proof (cases "body = []")
    case True
    then show ?thesis by (simp add: readBody_done)
  next
    case False
    have "readBody ?s0 (length body) [] = Some (Done (([] @ body, None),
       ?s0\<lparr>conn := Some ((c\<lparr>rx := after_frame (body @ nxt) rest\<rparr>)\<lparr>rx := after_frame nxt rest\<rparr>)\<rparr>))"
      by (rule readBody_avail) (use False in \<open>simp_all add: after_frame_def\<close>)
    then show ?thesis by simp
  qed
  show ?thesis
    apply (subst readPacketData_loop.simps)
    using assms(1,3,5) h b
    by (simp add: assms(4)[symmetric] Let_def split: exec.splits)
qed

lemma be_step_uint:
  fixes acc :: "'a::len word" and x :: byte
  assumes "uint acc < 2 ^ (LENGTH('a) - 8)" "8 \<le> LENGTH('a)"
  shows "uint (push_bit 8 acc OR ucast x) = uint acc * 256 + uint x"
proof -
  have "uint x < 2 ^ 8" using uint_lt2p[of x] by simp
  moreover have "(2::int) ^ 8 \<le> 2 ^ LENGTH('a)" using assms(2) by (intro power_increasing) simp_all
  ultimately have "uint x < 2 ^ LENGTH('a)" by linarith
  then have ux: "uint (ucast x :: 'a word) = uint x"
    by (simp add: unsigned_ucast_eq take_bit_int_eq_self)
  have "uint acc * 2 ^ 8 < 2 ^ (LENGTH('a) - 8) * 2 ^ 8" using assms(1) by simp
  also have "\<dots> = 2 ^ LENGTH('a)"
  proof -
    have "(2::int) ^ (LENGTH('a) - 8) * 2 ^ 8 = 2 ^ (LENGTH('a) - 8 + 8)" by (simp only: power_add)
    then show ?thesis using assms(2) by simp
  qed
  finally have lt: "uint acc * 256 < 2 ^ LENGTH('a)" by simp
  have "uint (push_bit 8 acc) = take_bit LENGTH('a) (push_bit 8 (uint acc))"
    by (simp only: unsigned_push_bit_eq)
  also have "push_bit 8 (uint acc) = uint acc * 256" by (simp add: push_bit_eq_mult)
  also have "take_bit LENGTH('a) (uint acc * 256) = uint acc * 256"
    using lt by (simp add: take_bit_int_eq_self)
  finally have up: "uint (push_bit 8 acc) = uint acc * 256" .
  have disj: "uint acc * 256 AND uint x = 0"
  proof (rule bit_eqI)
    fix n
    have e: "uint acc * 256 = push_bit 8 (uint acc)" by (simp add: push_bit_eq_mult)
    have "bit (uint x) n \<Longrightarrow> n < 8" using bit_imp_le_length[of x n] by (simp add: bit_uint_iff)
    then show "bit (uint acc * 256 AND uint x) n = bit (0::int) n"
      unfolding e by (auto simp add: bit_and_iff bit_push_bit_iff)
  qed
  have "uint (push_bit 8 acc OR ucast x) = uint (push_bit 8 acc) OR uint (ucast x :: 'a word)"
    by (simp only: uint_or)
  also have "\<dots> = uint acc * 256 OR uint x" by (simp only: up ux)
  also have "\<dots> = uint acc * 256 + uint x" by (simp only: disjunctive_add_eq_or[OF disj, symmetric])
  finally show ?thesis .
qed

lemma BE16_value: "uint (BigEndian_Uint16 [b0, b1]) = uint b0 * 2 ^ 8 + uint b1"
proof -
  have 0: "uint (push_bit 8 (0::16 word) OR ucast b0) = uint b0"
    using be_step_uint[of "0::16 word" b0] by simp
  have "uint b0 < 2 ^ 8" using uint_lt2p[of b0] by simp
  then show ?thesis
    using be_step_uint[of "push_bit 8 (0::16 word) OR ucast b0" b1] 0
    by (simp add: BigEndian_Uint16_def)
qed

lemma BE32_value:
  "uint (BigEndian_Uint32 [b0, b1, b2, b3]) = uint b0 * 2 ^ 24 + uint b1 * 2 ^ 16 + uint b2 * 2 ^ 8 + uint b3"
proof -
  let ?a0 = "push_bit 8 (0::32 word) OR ucast b0"
  let ?a1 = "push_bit 8 ?a0 OR ucast b1"
  let ?a2 = "push_bit 8 ?a1 OR ucast b2"
  have b: "uint b0 < 2 ^ 8" "uint b1 < 2 ^ 8" "uint b2 < 2 ^ 8" "uint b3 < 2 ^ 8"
    "0 \<le> uint b0" "0 \<le> uint b1" "0 \<le> uint b2"
    using uint_lt2p[of b0] uint_lt2p[of b1] uint_lt2p[of b2] uint_lt2p[of b3] by simp_all
  have 0: "uint ?a0 = uint b0"
    using be_step_uint[of "0::32 word" b0] by simp
  have 1: "uint ?a1 = uint b0 * 256 + uint b1"
    using be_step_uint[of ?a0 b1] 0 b by simp
  have 2: "uint ?a2 = (uint b0 * 256 + uint b1) * 256 + uint b2"
    using be_step_uint[of ?a1 b2] 1 b by simp
  have 3: "uint (push_bit 8 ?a2 OR ucast b3) = ((uint b0 * 256 + uint b1) * 256 + uint b2) * 256 + uint b3"
    using be_step_uint[of ?a2 b3] 2 b by simp
  show ?thesis using 3 by (simp add: BigEndian_Uint32_def algebra_simps)
qed

lemma resend_ok:
  "conn s = Some c \<Longrightarrow> writes_ok (length pcks) c \<Longrightarrow>
   resend L s pcks = Done (None, replayed L s c pcks)"
proof (induction pcks arbitrary: s c)
  case Nil
  then show ?case by (simp add: replayed_def)
next
  case (Cons p pcks)
  let ?s1 = "if SSL (connOption s) then negotiate s else s"
  have c1: "conn ?s1 = Some c" using Cons.prems(1) by (simp add: negotiate_def)
  define c' where "c' = c\<lparr>tx := tx c @ [(SSL (connOption s), bytes L p (Context s))], wres := drop 1 (wres c)\<rparr>"
  have w: "conn_Write (SSL (connOption s)) (bytes L p (Context s)) c = (None, c')"
    using Cons.prems(2) by (cases "wres c") (auto simp add: conn_Write_def writes_ok_def c'_def)
  have c': "tx c' = tx c @ [(SSL (connOption s), bytes L p (Context s))]" "wres c' = drop 1 (wres c)" "rx c' = rx c"
    by (simp_all add: c'_def)
  have ok: "writes_ok (length pcks) c'"
    using Cons.prems(2) c'(2) by (cases "wres c") (auto simp add: writes_ok_def)
  have ih: "resend L (?s1\<lparr>conn := Some c'\<rparr>) pcks = Done (None, replayed L (?s1\<lparr>conn := Some c'\<rparr>) c' pcks)"
    by (rule Cons.IH) (use ok in simp_all)
  have eq: "replayed L (?s1\<lparr>conn := Some c'\<rparr>) c' pcks = replayed L s c (p # pcks)"
    using c' w Cons.prems(1)
    by (cases "wres c") (auto simp add: replayed_def negotiate_def conn_Write_def split: option.splits)
  show ?case using c1 w ih eq by simp
qed

lemma writePackets_ok:
  "conn s = Some c \<Longrightarrow> writes_ok (length ps) c \<Longrightarrow> writePackets L s ps = Done (None, sent L s c ps)"
proof (induction ps arbitrary: s c)
  case Nil
  then show ?case by (simp add: sent_def)
next
  case (Cons p ps)
  define c' where "c' = c\<lparr>tx := tx c @ [(sslConn s, bytes L p (Context s))], wres := drop 1 (wres c)\<rparr>"
  define s' where "s' = s\<lparr>sendPcks := sendPcks s @ [p], conn := Some c'\<rparr>"
  have w: "conn_Write (sslConn s) (bytes L p (Context s)) c = (None, c')"
    using Cons.prems(2) by (cases "wres c") (auto simp add: conn_Write_def writes_ok_def c'_def)
  have wp: "writePacket L s p = Done (None, s')"
    using Cons.prems(1) w by (simp add: writePacket_def s'_def)
  have ok: "writes_ok (length ps) c'"
    using Cons.prems(2) by (cases "wres c") (auto simp add: writes_ok_def c'_def)
  have ih: "writePackets L s' ps = Done (None, sent L s' c' ps)"
    by (rule Cons.IH) (use ok in \<open>simp_all add: s'_def\<close>)
  have eq: "sent L s' c' ps = sent L s c (p # ps)"
    by (cases "wres c") (simp_all add: sent_def s'_def c'_def drop_Suc drop_tl)
  show ?case using wp ih eq by simp
qed

lemma readPacketData_tag_aux:
  assumes "readPacketData_loop L s t = Some r"
  shows "\<forall>pd s'. r = Done ((pd, None), s') \<longrightarrow> 8 \<le> length pd \<and> pd ! 4 \<noteq> RESEND"
  by (rule readPacketData_loop.raw_induct[OF _ assms,
        where P = "\<lambda>_ _ _ r. \<forall>pd s'. r = Done ((pd, None), s') \<longrightarrow> 8 \<le> length pd \<and> pd ! 4 \<noteq> RESEND"])
     (auto simp add: Let_def nth_append split: if_splits option.splits prod.splits exec.splits bind_splits)

lemma readPacketData_tag:
  "readPacketData_loop L s t = Some (Done ((pd, None), s')) \<Longrightarrow> 8 \<le> length pd \<and> pd ! 4 \<noteq> RESEND"
  using readPacketData_tag_aux by blast

lemma declared_length_value:
  "uint (declared_length ctx [b0, b1, b2, b3, b4, b5, b6, b7]) =
     (if handshakeComplete ctx \<and> Version ctx \<ge> 315
      then uint b0 * 2 ^ 24 + uint b1 * 2 ^ 16 + uint b2 * 2 ^ 8 + uint b3
      else uint b0 * 2 ^ 8 + uint b1)"
proof -
  have "uint b0 * 2 ^ 8 + uint b1 < 2 ^ 16" "0 \<le> uint b0 * 2 ^ 8 + uint b1"
    using uint_lt2p[of b0] uint_lt2p[of b1] by simp_all
  then have "uint (ucast (BigEndian_Uint16 [b0, b1]) :: 32 word) = uint b0 * 2 ^ 8 + uint b1"
    by (simp add: unsigned_ucast_eq BE16_value take_bit_int_eq_self)
  then show ?thesis by (simp add: declared_length_def BE32_value)
qed

lemma body_length:
  assumes "int (length body) = (uint (declared_length ctx head) - 8) mod 2 ^ 32"
  shows "length body = unat (declared_length ctx head - 8)"
proof -
  have "uint (declared_length ctx head - 8) = (uint (declared_length ctx head) - 8) mod 2 ^ 32"
    by (simp add: uint_word_ariths)
  then show ?thesis using assms by (simp add: unat_eq_nat_uint)
qed

lemma writePacket_appends:
  "writePacket L s p = Done (e, s1) \<Longrightarrow> sendPcks s1 = sendPcks s @ [p]"
  by (auto simp add: writePacket_def Let_def split: option.splits prod.splits)

lemma writes_ok_add:
  "writes_ok (m + n) c \<Longrightarrow> writes_ok m c \<and> list_all (\<lambda>w. w = None) (take n (drop m (wres c)))"
  by (simp add: writes_ok_def take_add)

lemma resend_then_frame:
  assumes "conn s = Some c"
    and "rx c = (h1 @ body1 @ x, None) # r1"
    and "length h1 = 8" "h1 ! 4 = RESEND"
    and "length body1 = unat (declared_length (Context s) h1 - 8)"
    and "after_frame x r1 = (h2 @ body2 @ nxt, None) # rest"
    and "length h2 = 8" "h2 ! 4 \<noteq> RESEND"
    and "length body2 = unat (declared_length (Context s) h2 - 8)"
    and "writes_ok (length (sendPcks s)) c"
  shows "readPacketData L s =
           Some (Done ((h2 @ body2, None),
             s\<lparr>sslConn := (sslConn s \<or> (SSL (connOption s) \<and> sendPcks s \<noteq> [])),
               conn := Some (c\<lparr>rx := after_frame nxt rest,
                               tx := tx c @ map (\<lambda>p. (SSL (connOption s), bytes L p (Context s))) (sendPcks s),
                               wres := drop (length (sendPcks s)) (wres c)\<rparr>)\<rparr>))"
proof -
  let ?c1 = "c\<lparr>rx := after_frame x r1\<rparr>"
  let ?s1 = "s\<lparr>conn := Some ?c1\<rparr>"
  have 1: "readPacketData_loop L s 0 =
     (let s1 = ?s1 in
      if h1 ! 4 = RESEND then
        (case resend L s1 (sendPcks s) of
           Abort a \<Rightarrow> Some (Abort a)
         | Done (Some err, s3) \<Rightarrow> Some (Done (([], Some err), s3))
         | Done (None, s3) \<Rightarrow> readPacketData_loop L s3 (Suc 0))
      else Some (Done ((h1 @ body1, None), s1)))"
    by (rule read_frame[OF assms(1,2,3,5)]) simp
  have ok1: "writes_ok (length (sendPcks s)) ?c1" using assms(10) by (simp add: writes_ok_def)
  have 2: "resend L ?s1 (sendPcks s) = Done (None, replayed L ?s1 ?c1 (sendPcks s))"
    by (rule resend_ok) (use ok1 in simp_all)
  let ?s2 = "replayed L ?s1 ?c1 (sendPcks s)"
  let ?c2 = "?c1\<lparr>tx := tx c @ map (\<lambda>p. (SSL (connOption s), bytes L p (Context s))) (sendPcks s),
                       wres := drop (length (sendPcks s)) (wres c)\<rparr>"
  have c2: "conn ?s2 = Some ?c2" by (simp add: replayed_def)
  have rx2: "rx ?c2 = (h2 @ body2 @ nxt, None) # rest" using assms(6) by simp
  have ctx2: "Context ?s2 = Context s" by (simp add: replayed_def)
  have 3: "readPacketData_loop L ?s2 (Suc 0) =
     (let s1 = ?s2\<lparr>conn := Some (?c2\<lparr>rx := after_frame nxt rest\<rparr>)\<rparr> in
      if h2 ! 4 = RESEND then
        (case resend L s1 (sendPcks ?s2) of
           Abort a \<Rightarrow> Some (Abort a)
         | Done (Some err, s3) \<Rightarrow> Some (Done (([], Some err), s3))
         | Done (None, s3) \<Rightarrow> readPacketData_loop L s3 (Suc (Suc 0)))
      else Some (Done ((h2 @ body2, None), s1)))"
    by (rule read_frame[OF c2 rx2 assms(7)]) (use assms(9) ctx2 in simp_all)
  show ?thesis
    using 1 2 3 assms(4,8) by (simp add: readPacketData_def Let_def replayed_def)
qed

lemma readPacketData_frame:
  assumes "conn s = Some c" "rx c = (head @ body @ nxt, None) # rest" "length head = 8"
    "length body = unat (declared_length (Context s) head - 8)" "head ! 4 \<noteq> RESEND"
  shows "readPacketData L s =
     Some (Done ((head @ body, None), s\<lparr>conn := Some (c\<lparr>rx := after_frame nxt rest\<rparr>)\<rparr>))"
  using read_frame[OF assms(1,2,3,4), of 0 L] assms(5) by (simp add: readPacketData_def)

lemma Index0_none: "0 \<notin> set xs \<Longrightarrow> Index0 xs = - 1"
  by (induction xs) auto

lemma Index0_first: "0 \<notin> set xs \<Longrightarrow> Index0 (xs @ 0 # ys) = int (length xs)"
  by (induction xs) (auto simp add: Let_def)

lemma Index0_head: "Index0 (0 # xs) = 0"
  by simp

lemma marker_loop_done: "\<not> (b \<and> \<not> r) \<Longrightarrow> marker_loop L s b r t = Some (Done ((r, None), s))"
  by (subst marker_loop.simps) auto

subsection \<open>Reading a CLR\<close>

lemma GetClr_short:
  assumes "inBuffer s = pre @ sz # clr @ post" "index s = int (length pre)"
    "length (inBuffer s) < 2 ^ 63" "sz \<noteq> 0" "sz \<noteq> 0xFE" "sz \<noteq> 0xFF" "unat sz = length clr"
  shows "GetClr L s = Some (Done ((Slice clr post, None), s\<lparr>index := int (length pre) + 1 + int (length clr)\<rparr>))"
proof -
  let ?s1 = "s\<lparr>index := int (length pre) + 1\<rparr>"
  have b1: "length pre + 1 < 2 ^ 63" using assms(1,3) by simp
  have g: "GetByte L s = Some (Done ((sz, None), ?s1))"
    by (rule GetByte_at[OF assms(1,2) b1])
  have i: "inBuffer ?s1 = (pre @ [sz]) @ clr @ post" "index ?s1 = int (length (pre @ [sz]))"
    using assms(1) by simp_all
  have u: "uint sz = int (length clr)" using assms(7) by (simp add: uint_nat)
  have b2: "length (pre @ [sz]) + length clr < 2 ^ 63" using assms(1,3) by simp
  have r: "read L ?s1 (uint sz) = Some (Done ((Slice clr post, None), ?s1\<lparr>index := int (length (pre @ [sz])) + uint sz\<rparr>))"
    by (rule read_at[OF i u b2])
  show ?thesis using g r assms(4,5,6) u by (simp add: GetClr_def)
qed

lemma GetClr_null:
  assumes "inBuffer s = pre @ sz # post" "index s = int (length pre)"
    "length (inBuffer s) < 2 ^ 63" "sz = 0 \<or> sz = 0xFF"
  shows "GetClr L s = Some (Done ((NilSlice, None), s\<lparr>index := int (length pre) + 1\<rparr>))"
proof -
  have b1: "length pre + 1 < 2 ^ 63" using assms(1,3) by simp
  have g: "GetByte L s = Some (Done ((sz, None), s\<lparr>index := int (length pre) + 1\<rparr>))"
    by (rule GetByte_at[OF assms(1,2) b1])
  show ?thesis using g assms(4) by (auto simp add: GetClr_def)
qed


subsection \<open>C7: the width of the length field\<close>

text \<open>
  C7. Let a frame with the header bytes \<open>b0 \<dots> b7\<close> arrive in one piece. The number of
  body bytes that \<^verbatim>\<open>readPacketData\<close> reads after the header is the declared length minus
  8 (in 32-bit arithmetic), where the declared length is the big-endian value of
  \<open>b0 b1 b2 b3\<close> when the handshake is complete and the version is at least 315, and the
  big-endian value of \<open>b0 b1\<close> otherwise. \<open>b4\<close> is the packet type: a frame with another
  tag than RESEND is returned, \<^verbatim>\<open>readPacket\<close> parses it as a DATA packet when \<open>b4\<close> is the
  DATA tag, and returns nil for a tag it does not know.
\<close>

theorem header_length_width:
  assumes "conn s = Some c"
    and "rx c = ([b0, b1, b2, b3, b4, b5, b6, b7] @ body @ nxt, None) # rest"
    and "int (length body) =
          ((if handshakeComplete (Context s) \<and> Version (Context s) \<ge> 315
            then uint b0 * 2 ^ 24 + uint b1 * 2 ^ 16 + uint b2 * 2 ^ 8 + uint b3
            else uint b0 * 2 ^ 8 + uint b1) - 8) mod 2 ^ 32"
    and "b4 \<noteq> RESEND"
  shows "readPacketData L s =
           Some (Done (([b0, b1, b2, b3, b4, b5, b6, b7] @ body, None),
                       s\<lparr>conn := Some (c\<lparr>rx := after_frame nxt rest\<rparr>)\<rparr>))
       \<and> (b4 = DATA \<longrightarrow>
            readPacket L s =
              Some (Done ((case newDataPacketFromData L ([b0, b1, b2, b3, b4, b5, b6, b7] @ body) (Context s) of
                             (None, err) \<Rightarrow> (NilDataPacket, err)
                           | (Some d, err) \<Rightarrow> (Iface (PData d), err)),
                          s\<lparr>conn := Some (c\<lparr>rx := after_frame nxt rest\<rparr>)\<rparr>)))
       \<and> (b4 \<notin> {ACCEPT, REFUSE, REDIRECT, DATA, MARKER} \<longrightarrow>
            readPacket L s =
              Some (Done ((NilInterface, None), s\<lparr>conn := Some (c\<lparr>rx := after_frame nxt rest\<rparr>)\<rparr>)))"
proof -
  let ?head = "[b0, b1, b2, b3, b4, b5, b6, b7]"
  let ?s1 = "s\<lparr>conn := Some (c\<lparr>rx := after_frame nxt rest\<rparr>)\<rparr>"
  have len: "length body = unat (declared_length (Context s) ?head - 8)"
    by (rule body_length) (use assms(3) in \<open>simp only: declared_length_value\<close>)
  have "readPacketData_loop L s 0 =
     (let s1 = ?s1 in
      if ?head ! 4 = RESEND then
        (case resend L s1 (sendPcks s) of
           Abort a \<Rightarrow> Some (Abort a)
         | Done (Some err, s3) \<Rightarrow> Some (Done (([], Some err), s3))
         | Done (None, s3) \<Rightarrow> readPacketData_loop L s3 (Suc 0))
      else Some (Done ((?head @ body, None), s1)))"
    by (rule read_frame[OF assms(1,2) _ len]) simp_all
  then have rd: "readPacketData L s = Some (Done ((?head @ body, None), ?s1))"
    using assms(4) by (simp add: readPacketData_def)
  have data: "readPacket L s =
       Some (Done ((case newDataPacketFromData L (?head @ body) (Context s) of
                             (None, err) \<Rightarrow> (NilDataPacket, err)
                           | (Some d, err) \<Rightarrow> (Iface (PData d), err)), ?s1))" if "b4 = DATA"
    apply (subst readPacket.simps)
    using that rd by (simp add: DATA_def ACCEPT_def REFUSE_def REDIRECT_def split: prod.splits option.splits)
  have other: "readPacket L s = Some (Done ((NilInterface, None), ?s1))"
    if "b4 \<notin> {ACCEPT, REFUSE, REDIRECT, DATA, MARKER}"
    apply (subst readPacket.simps)
    using that rd by simp
  show ?thesis using rd data other by blast
qed

text \<open>The theorem on a 12-byte DATA frame, once with a 32-bit and once with a 16-bit
  length field.\<close>

theorem header_length_width_witness:
  "readPacket demo_lib (demo_connected [([0, 0, 0, 12, 6, 0, 0, 0, 0, 0, 7, 9, 1, 2, 3], None)]) =
     Some (Done ((Iface (PData \<lparr>buffer = [7, 9]\<rparr>), None),
                 demo_connected [([1, 2, 3], None)]))
   \<and> readPacket demo_lib ((demo_connected [([0, 12, 0, 0, 6, 0, 0, 0, 0, 0, 7, 9, 1, 2, 3], None)])\<lparr>Context := demo_ctx16\<rparr>) =
     Some (Done ((Iface (PData \<lparr>buffer = [7, 9]\<rparr>), None),
                 (demo_connected [([1, 2, 3], None)])\<lparr>Context := demo_ctx16\<rparr>))"
proof -
  have nd: "\<And>pd ctx. newDataPacketFromData demo_lib pd ctx = (Some \<lparr>buffer = drop 10 pd\<rparr>, None)"
    by (simp add: demo_lib_def)
  have tag: "(6::byte) \<noteq> RESEND" "(6::byte) = DATA" by (simp_all add: RESEND_def DATA_def)
  let ?c = "\<lparr>rx = [([0, 0, 0, 12, 6, 0, 0, 0, 0, 0, 7, 9, 1, 2, 3], None)], tx = [], wres = []\<rparr>"
  let ?s = "demo_connected [([0, 0, 0, 12, 6, 0, 0, 0, 0, 0, 7, 9, 1, 2, 3], None)]"
  have c: "conn ?s = Some ?c" by (simp add: demo_connected_def)
  have rx: "rx ?c = ([0, 0, 0, 12, 6, 0, 0, 0] @ [0, 0, 7, 9] @ [1, 2, 3], None) # []" by simp
  have ctx: "handshakeComplete (Context ?s)" "Version (Context ?s) = 318"
    by (simp_all add: demo_connected_def demo_session_def NewSession_def demo_ctx_def)
  have len: "int (length [0, 0, 7, 9 :: byte]) =
          ((if handshakeComplete (Context ?s) \<and> Version (Context ?s) \<ge> 315
            then uint (0::byte) * 2 ^ 24 + uint (0::byte) * 2 ^ 16 + uint (0::byte) * 2 ^ 8 + uint (12::byte)
            else uint (0::byte) * 2 ^ 8 + uint (0::byte)) - 8) mod 2 ^ 32"
    using ctx by simp
  have e: "?s\<lparr>conn := Some (?c\<lparr>rx := after_frame [1, 2, 3] []\<rparr>)\<rparr> = demo_connected [([1, 2, 3], None)]"
    by (simp add: demo_connected_def after_frame_def)
  have 1: "readPacket demo_lib ?s =
     Some (Done ((Iface (PData \<lparr>buffer = [7, 9]\<rparr>), None), demo_connected [([1, 2, 3], None)]))"
    using header_length_width[OF c rx len tag(1), of demo_lib] by (simp add: nd DATA_def demo_connected_def after_frame_def)
  let ?c' = "\<lparr>rx = [([0, 12, 0, 0, 6, 0, 0, 0, 0, 0, 7, 9, 1, 2, 3], None)], tx = [], wres = []\<rparr>"
  let ?s' = "(demo_connected [([0, 12, 0, 0, 6, 0, 0, 0, 0, 0, 7, 9, 1, 2, 3], None)])\<lparr>Context := demo_ctx16\<rparr>"
  have c': "conn ?s' = Some ?c'" by (simp add: demo_connected_def)
  have rx': "rx ?c' = ([0, 12, 0, 0, 6, 0, 0, 0] @ [0, 0, 7, 9] @ [1, 2, 3], None) # []" by simp
  have ctx': "\<not> handshakeComplete (Context ?s')"
    by (simp_all add: demo_ctx16_def)
  have len': "int (length [0, 0, 7, 9 :: byte]) =
          ((if handshakeComplete (Context ?s') \<and> Version (Context ?s') \<ge> 315
            then uint (0::byte) * 2 ^ 24 + uint (12::byte) * 2 ^ 16 + uint (0::byte) * 2 ^ 8 + uint (0::byte)
            else uint (0::byte) * 2 ^ 8 + uint (12::byte)) - 8) mod 2 ^ 32"
    using ctx' by simp
  have e': "?s'\<lparr>conn := Some (?c'\<lparr>rx := after_frame [1, 2, 3] []\<rparr>)\<rparr> = (demo_connected [([1, 2, 3], None)])\<lparr>Context := demo_ctx16\<rparr>"
    by (simp add: demo_connected_def after_frame_def)
  have 2: "readPacket demo_lib ?s' =
     Some (Done ((Iface (PData \<lparr>buffer = [7, 9]\<rparr>), None), (demo_connected [([1, 2, 3], None)])\<lparr>Context := demo_ctx16\<rparr>))"
    using header_length_width[OF c' rx' len' tag(1), of demo_lib] by (simp add: nd DATA_def demo_connected_def after_frame_def)
  show ?thesis using 1 2 by simp
qed

subsection \<open>C6: RESEND\<close>

text \<open>
  C6. A session with a connection sends the packets \<open>ps\<close> with \<^verbatim>\<open>writePacket\<close>, and every
  write succeeds: each packet is appended to \<open>sendPcks\<close> and its bytes go to the transport.
  Then a RESEND frame arrives, followed (in the same piece of input or in the next one)
  by a frame with another tag. \<^verbatim>\<open>readPacketData\<close>, the closure in which \<^verbatim>\<open>readPacket\<close> reads a
  frame, writes every packet of \<open>sendPcks\<close> again, in the order in which they were sent,
  and then returns the frame that follows; \<^verbatim>\<open>readPacket\<close> returns that frame parsed when it
  is a DATA frame, and \<open>sendPcks\<close> is unchanged. The bytes of the replay are those of
  \<^verbatim>\<open>bytes()\<close> under the context \<open>ctx\<close> that the session has when the RESEND arrives: when the
  context is the one under which the packets were sent, and \<open>sendPcks\<close> held nothing
  before, the bytes written again are exactly the bytes written first. The replay goes
  through a new TLS client when SSL is configured and through the raw connection
  otherwise. No frame that \<^verbatim>\<open>readPacketData\<close> returns has the RESEND tag, whatever the
  session.
\<close>

theorem resend_replay:
  assumes "conn s0 = Some c0"
    and "writes_ok (length ps + length (sendPcks s0 @ ps)) c0"
    and "rx c0 = (h1 @ body1 @ x, None) # r1"
    and "length h1 = 8" "h1 ! 4 = RESEND"
    and "length body1 = unat (declared_length ctx h1 - 8)"
    and "after_frame x r1 = (h2 @ body2 @ nxt, None) # rest"
    and "length h2 = 8" "h2 ! 4 \<noteq> RESEND"
    and "length body2 = unat (declared_length ctx h2 - 8)"
  shows "\<exists>c1 c2.
      c1 = c0\<lparr>tx := tx c0 @ map (\<lambda>p. (sslConn s0, bytes L p (Context s0))) ps,
              wres := drop (length ps) (wres c0)\<rparr>
    \<and> c2 = c1\<lparr>rx := after_frame nxt rest,
              tx := tx c1 @ map (\<lambda>p. (SSL (connOption s0), bytes L p ctx)) (sendPcks s0 @ ps),
              wres := drop (length (sendPcks s0 @ ps)) (wres c1)\<rparr>
    \<and> writePackets L s0 ps = Done (None, s0\<lparr>sendPcks := sendPcks s0 @ ps, conn := Some c1\<rparr>)
    \<and> readPacketData L (s0\<lparr>sendPcks := sendPcks s0 @ ps, conn := Some c1, Context := ctx\<rparr>) =
        Some (Done ((h2 @ body2, None),
          s0\<lparr>sendPcks := sendPcks s0 @ ps, conn := Some c2, Context := ctx,
             sslConn := (sslConn s0 \<or> (SSL (connOption s0) \<and> sendPcks s0 @ ps \<noteq> []))\<rparr>))
    \<and> (h2 ! 4 = DATA \<longrightarrow>
        readPacket L (s0\<lparr>sendPcks := sendPcks s0 @ ps, conn := Some c1, Context := ctx\<rparr>) =
          Some (Done ((case newDataPacketFromData L (h2 @ body2) ctx of
                         (None, err) \<Rightarrow> (NilDataPacket, err)
                       | (Some d, err) \<Rightarrow> (Iface (PData d), err)),
            s0\<lparr>sendPcks := sendPcks s0 @ ps, conn := Some c2, Context := ctx,
               sslConn := (sslConn s0 \<or> (SSL (connOption s0) \<and> sendPcks s0 @ ps \<noteq> []))\<rparr>)))
    \<and> (ctx = Context s0 \<and> sendPcks s0 = [] \<longrightarrow>
        map snd (drop (length (tx c1)) (tx c2)) = map snd (drop (length (tx c0)) (tx c1)))
    \<and> (\<forall>s pd s'. readPacketData L s = Some (Done ((pd, None), s')) \<longrightarrow> pd ! 4 \<noteq> RESEND)"
proof -
  define qs where "qs = sendPcks s0 @ ps"
  define c1 where "c1 = c0\<lparr>tx := tx c0 @ map (\<lambda>p. (sslConn s0, bytes L p (Context s0))) ps,
              wres := drop (length ps) (wres c0)\<rparr>"
  define c2 where "c2 = c1\<lparr>rx := after_frame nxt rest,
              tx := tx c1 @ map (\<lambda>p. (SSL (connOption s0), bytes L p ctx)) qs,
              wres := drop (length qs) (wres c1)\<rparr>"
  define s1 where "s1 = s0\<lparr>sendPcks := qs, conn := Some c1, Context := ctx\<rparr>"
  define s2 where "s2 = s0\<lparr>sendPcks := qs, conn := Some c2, Context := ctx,
             sslConn := (sslConn s0 \<or> (SSL (connOption s0) \<and> qs \<noteq> []))\<rparr>"
  have ok: "writes_ok (length ps) c0" "list_all (\<lambda>w. w = None) (take (length qs) (drop (length ps) (wres c0)))"
    using writes_ok_add[OF assms(2)] by (simp_all add: qs_def)
  have w: "writePackets L s0 ps = Done (None, s0\<lparr>sendPcks := qs, conn := Some c1\<rparr>)"
    using writePackets_ok[OF assms(1) ok(1), of L] by (simp add: sent_def c1_def qs_def)
  have cs1: "conn s1 = Some c1" "Context s1 = ctx" "sendPcks s1 = qs"
    "sslConn s1 = sslConn s0" "connOption s1 = connOption s0" by (simp_all add: s1_def)
  have rx1: "rx c1 = (h1 @ body1 @ x, None) # r1" using assms(3) by (simp add: c1_def)
  have ok1: "writes_ok (length (sendPcks s1)) c1" using ok(2) by (simp add: writes_ok_def c1_def cs1)
  have "readPacketData L s1 =
           Some (Done ((h2 @ body2, None),
             s1\<lparr>sslConn := (sslConn s1 \<or> (SSL (connOption s1) \<and> sendPcks s1 \<noteq> [])),
               conn := Some (c1\<lparr>rx := after_frame nxt rest,
                               tx := tx c1 @ map (\<lambda>p. (SSL (connOption s1), bytes L p (Context s1))) (sendPcks s1),
                               wres := drop (length (sendPcks s1)) (wres c1)\<rparr>)\<rparr>))"
    by (rule resend_then_frame[OF cs1(1) rx1 assms(4,5) _ assms(7,8,9) _ ok1])
       (use assms(6,10) cs1(2) in simp_all)
  then have rd: "readPacketData L s1 = Some (Done ((h2 @ body2, None), s2))"
    unfolding cs1 by (simp add: s1_def s2_def c2_def)
  have tg: "(h2 @ body2) ! 4 = h2 ! 4" using assms(8) by (simp add: nth_append)
  have data: "readPacket L s1 =
       Some (Done ((case newDataPacketFromData L (h2 @ body2) ctx of
                             (None, err) \<Rightarrow> (NilDataPacket, err)
                           | (Some d, err) \<Rightarrow> (Iface (PData d), err)), s2))" if "h2 ! 4 = DATA"
    apply (subst readPacket.simps)
    using that rd tg by (simp add: s2_def DATA_def ACCEPT_def REFUSE_def REDIRECT_def split: prod.splits option.splits)
  have same: "map snd (drop (length (tx c1)) (tx c2)) = map snd (drop (length (tx c0)) (tx c1))"
    if "ctx = Context s0 \<and> sendPcks s0 = []"
    using that by (simp add: c1_def c2_def qs_def comp_def)
  have never: "\<forall>s pd s'. readPacketData L s = Some (Done ((pd, None), s')) \<longrightarrow> pd ! 4 \<noteq> RESEND"
    using readPacketData_tag by (auto simp add: readPacketData_def)
  show ?thesis
    apply (rule exI[of _ c1], rule exI[of _ c2])
    using w rd data same never
    unfolding s1_def s2_def qs_def[symmetric]
    by (simp add: c1_def[symmetric] c2_def[symmetric])
qed

text \<open>The theorem on a session that sends a DATA packet and a marker after the handshake;
  the RESEND frame arrives alone.\<close>

theorem resend_replay_witness:
  "writePackets demo_lib
       (demo_connected [([0, 0, 0, 8, 11, 0, 0, 0], None), ([0, 0, 0, 12, 6, 0, 0, 0, 0, 0, 7, 9], None)])
       [PData \<lparr>buffer = [1, 2, 3]\<rparr>, PMarker \<lparr>markerType = 1, markerData = 2\<rparr>] =
     Done (None, (demo_connected [])
        \<lparr>sendPcks := [PData \<lparr>buffer = [1, 2, 3]\<rparr>, PMarker \<lparr>markerType = 1, markerData = 2\<rparr>],
         conn := Some \<lparr>rx = [([0, 0, 0, 8, 11, 0, 0, 0], None), ([0, 0, 0, 12, 6, 0, 0, 0, 0, 0, 7, 9], None)],
                       tx = [(False, [0, 0, 0, 13, 6, 0, 0, 0, 0, 0, 1, 2, 3]),
                             (False, [0, 0, 0, 11, 12, 0, 0, 0, 1, 0, 2])],
                       wres = []\<rparr>\<rparr>)
   \<and> readPacket demo_lib ((demo_connected [])
        \<lparr>sendPcks := [PData \<lparr>buffer = [1, 2, 3]\<rparr>, PMarker \<lparr>markerType = 1, markerData = 2\<rparr>],
         conn := Some \<lparr>rx = [([0, 0, 0, 8, 11, 0, 0, 0], None), ([0, 0, 0, 12, 6, 0, 0, 0, 0, 0, 7, 9], None)],
                       tx = [(False, [0, 0, 0, 13, 6, 0, 0, 0, 0, 0, 1, 2, 3]),
                             (False, [0, 0, 0, 11, 12, 0, 0, 0, 1, 0, 2])],
                       wres = []\<rparr>\<rparr>) =
     Some (Done ((Iface (PData \<lparr>buffer = [7, 9]\<rparr>), None), (demo_connected [])
        \<lparr>sendPcks := [PData \<lparr>buffer = [1, 2, 3]\<rparr>, PMarker \<lparr>markerType = 1, markerData = 2\<rparr>],
         conn := Some \<lparr>rx = [],
                       tx = [(False, [0, 0, 0, 13, 6, 0, 0, 0, 0, 0, 1, 2, 3]),
                             (False, [0, 0, 0, 11, 12, 0, 0, 0, 1, 0, 2]),
                             (False, [0, 0, 0, 13, 6, 0, 0, 0, 0, 0, 1, 2, 3]),
                             (False, [0, 0, 0, 11, 12, 0, 0, 0, 1, 0, 2])],
                       wres = []\<rparr>\<rparr>))"
proof -
  let ?script = "[([0, 0, 0, 8, 11, 0, 0, 0], None), ([0, 0, 0, 12, 6, 0, 0, 0, 0, 0, 7, 9], None)]
                   :: (byte list \<times> net_error option) list"
  let ?c = "\<lparr>rx = ?script, tx = [], wres = []\<rparr>"
  let ?ps = "[PData \<lparr>buffer = [1, 2, 3]\<rparr>, PMarker \<lparr>markerType = 1, markerData = 2\<rparr>]"
  have c: "conn (demo_connected ?script) = Some ?c" by (simp add: demo_connected_def)
  have ok: "writes_ok (length ?ps + length (sendPcks (demo_connected ?script) @ ?ps)) ?c"
    by (simp add: writes_ok_def)
  have rx: "rx ?c = ([0, 0, 0, 8, 11, 0, 0, 0] @ [] @ [], None) # [([0, 0, 0, 12, 6, 0, 0, 0, 0, 0, 7, 9], None)]"
    by simp
  have nx: "after_frame [] [([0, 0, 0, 12, 6, 0, 0, 0, 0, 0, 7, 9 :: byte], None :: net_error option)] =
     ([0, 0, 0, 12, 6, 0, 0, 0] @ [0, 0, 7, 9] @ [], None) # []"
    by (simp add: after_frame_def)
  have l1: "length ([]::byte list) = unat (declared_length demo_ctx [0, 0, 0, 8, 11, 0, 0, 0] - 8)"
    by code_simp
  have l2: "length [0, 0, 7, 9 :: byte] = unat (declared_length demo_ctx [0, 0, 0, 12, 6, 0, 0, 0] - 8)"
    by code_simp
  have t: "[0, 0, 0, 8, 11, 0, 0, 0] ! 4 = RESEND" "[0, 0, 0, 12, 6, 0, 0, 0] ! 4 \<noteq> RESEND"
    by (simp_all add: RESEND_def)
  have b: "bytes demo_lib (PData \<lparr>buffer = [1, 2, 3]\<rparr>) demo_ctx = [0, 0, 0, 13, 6, 0, 0, 0, 0, 0, 1, 2, 3]"
    "bytes demo_lib (PMarker \<lparr>markerType = 1, markerData = 2\<rparr>) demo_ctx = [0, 0, 0, 11, 12, 0, 0, 0, 1, 0, 2]"
    by code_simp+
  have nd: "\<And>pd ctx. newDataPacketFromData demo_lib pd ctx = (Some \<lparr>buffer = drop 10 pd\<rparr>, None)"
    by (simp add: demo_lib_def)
  have s: "sslConn (demo_connected ?script) = False" "SSL (connOption (demo_connected ?script)) = False"
    "Context (demo_connected ?script) = demo_ctx" "sendPcks (demo_connected ?script) = []"
    by (simp_all add: demo_connected_def demo_session_def NewSession_def demo_opt_def)
  show ?thesis
    using resend_replay[OF c ok rx _ t(1) l1 nx _ t(2) l2, of demo_lib] b s
    by (simp add: nd DATA_def after_frame_def demo_connected_def demo_session_def NewSession_def)
qed

text \<open>
  A DATA packet is sent before the handshake is complete, with a 16-bit length field.
  \<^verbatim>\<open>Connect\<close> receives the ACCEPT and installs its context, and \<open>sendPcks\<close> keeps the packet.
  On the RESEND the packet is written again with a 32-bit length field: the bytes of the
  replay are not the bytes that were sent.
\<close>

theorem resend_replay_counterexample:
  "writePackets demo_lib
       ((demo_connected [([0, 0, 0, 8, 11, 0, 0, 0], None), ([0, 0, 0, 12, 6, 0, 0, 0, 0, 0, 7, 9], None)])
          \<lparr>Context := demo_ctx16\<rparr>)
       [PData \<lparr>buffer = [1, 2, 3]\<rparr>] =
     Done (None, (demo_connected [])
        \<lparr>sendPcks := [PData \<lparr>buffer = [1, 2, 3]\<rparr>],
         conn := Some \<lparr>rx = [([0, 0, 0, 8, 11, 0, 0, 0], None), ([0, 0, 0, 12, 6, 0, 0, 0, 0, 0, 7, 9], None)],
                       tx = [(False, [0, 13, 0, 0, 6, 0, 0, 0, 0, 0, 1, 2, 3])],
                       wres = []\<rparr>,
         Context := demo_ctx16\<rparr>)
   \<and> Connect_reply demo_lib ((demo_connected [])
        \<lparr>sendPcks := [PData \<lparr>buffer = [1, 2, 3]\<rparr>],
         conn := Some \<lparr>rx = [([0, 0, 0, 8, 11, 0, 0, 0], None), ([0, 0, 0, 12, 6, 0, 0, 0, 0, 0, 7, 9], None)],
                       tx = [(False, [0, 13, 0, 0, 6, 0, 0, 0, 0, 0, 1, 2, 3])],
                       wres = []\<rparr>,
         Context := demo_ctx16\<rparr>) (Iface (PAccept \<lparr>sessionCtx = demo_ctx\<rparr>)) =
     (Handshaken, (demo_connected [])
        \<lparr>sendPcks := [PData \<lparr>buffer = [1, 2, 3]\<rparr>],
         conn := Some \<lparr>rx = [([0, 0, 0, 8, 11, 0, 0, 0], None), ([0, 0, 0, 12, 6, 0, 0, 0, 0, 0, 7, 9], None)],
                       tx = [(False, [0, 13, 0, 0, 6, 0, 0, 0, 0, 0, 1, 2, 3])],
                       wres = []\<rparr>\<rparr>)
   \<and> readPacketData demo_lib ((demo_connected [])
        \<lparr>sendPcks := [PData \<lparr>buffer = [1, 2, 3]\<rparr>],
         conn := Some \<lparr>rx = [([0, 0, 0, 8, 11, 0, 0, 0], None), ([0, 0, 0, 12, 6, 0, 0, 0, 0, 0, 7, 9], None)],
                       tx = [(False, [0, 13, 0, 0, 6, 0, 0, 0, 0, 0, 1, 2, 3])],
                       wres = []\<rparr>\<rparr>) =
     Some (Done (([0, 0, 0, 12, 6, 0, 0, 0, 0, 0, 7, 9], None), (demo_connected [])
        \<lparr>sendPcks := [PData \<lparr>buffer = [1, 2, 3]\<rparr>],
         conn := Some \<lparr>rx = [],
                       tx = [(False, [0, 13, 0, 0, 6, 0, 0, 0, 0, 0, 1, 2, 3]),
                             (False, [0, 0, 0, 13, 6, 0, 0, 0, 0, 0, 1, 2, 3])],
                       wres = []\<rparr>\<rparr>))"
proof -
  let ?script = "[([0, 0, 0, 8, 11, 0, 0, 0], None), ([0, 0, 0, 12, 6, 0, 0, 0, 0, 0, 7, 9], None)]
                   :: (byte list \<times> net_error option) list"
  let ?c1 = "\<lparr>rx = ?script, tx = [(False, [0, 13, 0, 0, 6, 0, 0, 0, 0, 0, 1, 2, 3])], wres = []\<rparr>"
  let ?s1 = "(demo_connected [])\<lparr>sendPcks := [PData \<lparr>buffer = [1, 2, 3]\<rparr>], conn := Some ?c1\<rparr>"
  have b: "bytes demo_lib (PData \<lparr>buffer = [1, 2, 3]\<rparr>) demo_ctx16 = [0, 13, 0, 0, 6, 0, 0, 0, 0, 0, 1, 2, 3]"
    "bytes demo_lib (PData \<lparr>buffer = [1, 2, 3]\<rparr>) demo_ctx = [0, 0, 0, 13, 6, 0, 0, 0, 0, 0, 1, 2, 3]"
    by code_simp+
  have 1: "writePackets demo_lib ((demo_connected ?script)\<lparr>Context := demo_ctx16\<rparr>) [PData \<lparr>buffer = [1, 2, 3]\<rparr>] =
     Done (None, ?s1\<lparr>Context := demo_ctx16\<rparr>)"
    using b(1) by (simp add: writePacket_def conn_Write_def demo_connected_def demo_session_def NewSession_def)
  have 2: "Connect_reply demo_lib (?s1\<lparr>Context := demo_ctx16\<rparr>) (Iface (PAccept \<lparr>sessionCtx = demo_ctx\<rparr>)) =
     (Handshaken, ?s1)"
    by (simp add: Connect_reply_def demo_connected_def demo_session_def NewSession_def demo_ctx_def)
  have c: "conn ?s1 = Some ?c1" by simp
  have rx: "rx ?c1 = ([0, 0, 0, 8, 11, 0, 0, 0] @ [] @ [], None) # [([0, 0, 0, 12, 6, 0, 0, 0, 0, 0, 7, 9], None)]"
    by simp
  have nx: "after_frame [] [([0, 0, 0, 12, 6, 0, 0, 0, 0, 0, 7, 9 :: byte], None :: net_error option)] =
     ([0, 0, 0, 12, 6, 0, 0, 0] @ [0, 0, 7, 9] @ [], None) # []"
    by (simp add: after_frame_def)
  have s: "sslConn ?s1 = False" "SSL (connOption ?s1) = False" "Context ?s1 = demo_ctx"
    "sendPcks ?s1 = [PData \<lparr>buffer = [1, 2, 3]\<rparr>]"
    by (simp_all add: demo_connected_def demo_session_def NewSession_def demo_opt_def)
  have l1: "length ([]::byte list) = unat (declared_length (Context ?s1) [0, 0, 0, 8, 11, 0, 0, 0] - 8)"
    unfolding s by code_simp
  have l2: "length [0, 0, 7, 9 :: byte] = unat (declared_length (Context ?s1) [0, 0, 0, 12, 6, 0, 0, 0] - 8)"
    unfolding s by code_simp
  have t: "[0, 0, 0, 8, 11, 0, 0, 0] ! 4 = RESEND" "[0, 0, 0, 12, 6, 0, 0, 0] ! 4 \<noteq> RESEND"
    by (simp_all add: RESEND_def)
  have ok: "writes_ok (length (sendPcks ?s1)) ?c1" by (simp add: writes_ok_def)
  have 3: "readPacketData demo_lib ?s1 =
     Some (Done (([0, 0, 0, 12, 6, 0, 0, 0, 0, 0, 7, 9], None),
       ?s1\<lparr>conn := Some \<lparr>rx = [],
                       tx = [(False, [0, 13, 0, 0, 6, 0, 0, 0, 0, 0, 1, 2, 3]),
                             (False, [0, 0, 0, 13, 6, 0, 0, 0, 0, 0, 1, 2, 3])],
                       wres = []\<rparr>\<rparr>))"
    using resend_then_frame[OF c rx _ t(1) l1 nx _ t(2) l2 ok, of demo_lib] b(2) s
    by (simp add: after_frame_def)
  show ?thesis using 1 2 3 by (simp del: writePackets.simps)
qed

subsection \<open>C4: the text of a REDIRECT packet\<close>

text \<open>
  C4. \<^verbatim>\<open>readPacket\<close> receives a REDIRECT frame \<open>pd\<close> that carries its text \<open>data\<close> inline: the
  declared length is above the data offset, and \<open>data\<close> are the \<open>dataLen\<close> bytes from offset
  10, where \<open>dataLen\<close> is the 16-bit number at offset 8. It returns the redirect packet
  split by \<open>redirect_split\<close>. When flag bit 2 is set and the first zero byte of \<open>data\<close> is
  at an index above 0, the bytes before it are the redirect address, and the reconnect
  data are the rest of \<open>data\<close> from the zero byte on: the zero byte is their first byte.
  When the bit is clear, or \<open>data\<close> has no zero byte, or starts with one, all of \<open>data\<close> is
  the redirect address. \<^verbatim>\<open>Connect\<close> copies the reconnect data to \<^verbatim>\<open>connOption.connData\<close> as they
  are.
\<close>

theorem redirect_body_split:
  assumes "readPacketData L s = Some (Done ((pd, None), s1))"
    and "pd ! 4 = REDIRECT"
    and "newRedirectPacketFromData L pd = pck"
    and "dataOffset (packet pck) < ucast (pck_length (packet pck))"
    and "BigEndian_Uint16 (take 2 (drop 8 pd)) = dataLen"
    and "uint dataLen < 65526"
    and "10 + unat dataLen \<le> length pd"
    and "take (unat dataLen) (drop 10 pd) = data"
  shows "readPacket L s = Some (Done ((Iface (PRedirect (redirect_split pck data)), None), s1))
    \<and> (\<forall>addr rest. data = addr @ 0 # rest \<and> addr \<noteq> [] \<and> 0 \<notin> set addr \<and> flag (packet pck) AND 2 \<noteq> 0 \<longrightarrow>
          redirect_split pck data = pck\<lparr>redirectAddr := addr, reconnectData := 0 # rest\<rparr>)
    \<and> (flag (packet pck) AND 2 = 0 \<or> 0 \<notin> set data \<or> take 1 data = [0] \<longrightarrow>
          redirect_split pck data = pck\<lparr>redirectAddr := data\<rparr>)
    \<and> connData (connOption (snd (Connect_reply L s1 (Iface (PRedirect (redirect_split pck data)))))) =
          reconnectData (redirect_split pck data)"
proof -
  have w: "uint (10 + dataLen) = 10 + uint dataLen"
    using assms(6) by (simp add: uint_word_ariths)
  have n: "nat (uint dataLen) = unat dataLen" by simp
  have u: "10 + uint dataLen \<le> int (length pd)"
  proof -
    have "uint dataLen = int (unat dataLen)" by simp
    then show ?thesis using assms(7) by linarith
  qed
  have g: "go_slice pd 10 (uint (10 + dataLen)) = Done data"
    using assms(8) u unfolding w by (simp add: go_slice_def n)
  have l: "\<not> length pd < 10" using assms(7) by simp
  have t: "pd ! 4 \<noteq> ACCEPT" "pd ! 4 \<noteq> REFUSE"
    using assms(2) by (simp_all add: REDIRECT_def ACCEPT_def REFUSE_def)
  have r: "readPacket_redirect L s1 pd = Some (Done ((Iface (PRedirect (redirect_split pck data)), None), s1))"
    using assms(3,4,5) g l by (simp add: readPacket_redirect_def Let_def not_le[symmetric])
  have 1: "readPacket L s = Some (Done ((Iface (PRedirect (redirect_split pck data)), None), s1))"
    apply (subst readPacket.simps)
    using assms(1,2) t r by simp
  have 2: "redirect_split pck data = pck\<lparr>redirectAddr := addr, reconnectData := 0 # rest\<rparr>"
    if "data = addr @ 0 # rest \<and> addr \<noteq> [] \<and> 0 \<notin> set addr \<and> flag (packet pck) AND 2 \<noteq> 0" for addr rest
    using that by (simp add: redirect_split_def Index0_first)
  have 3: "redirect_split pck data = pck\<lparr>redirectAddr := data\<rparr>"
    if "flag (packet pck) AND 2 = 0 \<or> 0 \<notin> set data \<or> take 1 data = [0]"
  proof -
    have "flag (packet pck) AND 2 = 0 \<or> Index0 data \<le> 0"
      using that Index0_none[of data] by (cases data) auto
    then show ?thesis by (auto simp add: redirect_split_def Let_def)
  qed
  have 4: "connData (connOption (snd (Connect_reply L s1 (Iface (PRedirect r))))) = reconnectData r" for r
    by (simp add: Connect_reply_def Let_def split: prod.splits)
  show ?thesis using 1 2 3 4 by blast
qed

text \<open>The example of the specification: the text \<^verbatim>\<open>newhost:1522\<close>, a zero byte and
  \<^verbatim>\<open>connData123\<close>, with flag bit 2 set. \<^verbatim>\<open>connData\<close> becomes the zero byte followed by
  \<^verbatim>\<open>connData123\<close>.\<close>

theorem redirect_body_split_witness:
  "readPacket demo_lib ((demo_connected
       [([0, 34, 0, 0, 5, 2, 0, 0, 0, 24,
          110, 101, 119, 104, 111, 115, 116, 58, 49, 53, 50, 50, 0,
          99, 111, 110, 110, 68, 97, 116, 97, 49, 50, 51], None)])\<lparr>Context := demo_ctx16\<rparr>) =
     Some (Done ((Iface (PRedirect
        \<lparr>packet = \<lparr>pck_length = 34, dataOffset = 10, flag = 2\<rparr>,
         redirectAddr = [110, 101, 119, 104, 111, 115, 116, 58, 49, 53, 50, 50],
         reconnectData = [0, 99, 111, 110, 110, 68, 97, 116, 97, 49, 50, 51]\<rparr>), None),
       (demo_connected [])\<lparr>Context := demo_ctx16\<rparr>))
   \<and> Connect_reply demo_lib ((demo_connected [])\<lparr>Context := demo_ctx16\<rparr>) (Iface (PRedirect
        \<lparr>packet = \<lparr>pck_length = 34, dataOffset = 10, flag = 2\<rparr>,
         redirectAddr = [110, 101, 119, 104, 111, 115, 116, 58, 49, 53, 50, 50],
         reconnectData = [0, 99, 111, 110, 110, 68, 97, 116, 97, 49, 50, 51]\<rparr>)) =
     (Again, (demo_connected [])\<lparr>Context := demo_ctx16,
        connOption := \<lparr>Host = [110, 101, 119, 104, 111, 115, 116], Port = 1522, Protocol = [],
                       SSL = False, SSLVerify = False,
                       connData = [0, 99, 111, 110, 110, 68, 97, 116, 97, 49, 50, 51]\<rparr>\<rparr>)"
proof -
  let ?head = "[0, 34, 0, 0, 5, 2, 0, 0] :: byte list"
  let ?body = "[0, 24, 110, 101, 119, 104, 111, 115, 116, 58, 49, 53, 50, 50, 0,
          99, 111, 110, 110, 68, 97, 116, 97, 49, 50, 51] :: byte list"
  let ?c = "\<lparr>rx = [(?head @ ?body @ [], None)], tx = [], wres = []\<rparr>"
  let ?s = "(demo_connected [(?head @ ?body, None)])\<lparr>Context := demo_ctx16\<rparr>"
  let ?s1 = "(demo_connected [])\<lparr>Context := demo_ctx16\<rparr>"
  let ?pck = "\<lparr>packet = \<lparr>pck_length = 34, dataOffset = 10, flag = 2\<rparr>,
         redirectAddr = [], reconnectData = []\<rparr>"
  have c: "conn ?s = Some ?c" by (simp add: demo_connected_def)
  have len: "length ?body = unat (declared_length (Context ?s) ?head - 8)"
    by (simp add: demo_ctx16_def declared_length_def BigEndian_Uint16_def)
  have tag: "?head ! 4 \<noteq> RESEND" "(?head @ ?body) ! 4 = REDIRECT" by (simp_all add: RESEND_def REDIRECT_def)
  have rd: "readPacketData demo_lib ?s = Some (Done ((?head @ ?body, None), ?s1))"
    using readPacketData_frame[OF c _ _ len tag(1), where nxt = "[]" and rest = "[]" and L = demo_lib]
    by (simp add: after_frame_def demo_connected_def)
  have p: "newRedirectPacketFromData demo_lib (?head @ ?body) = ?pck"
    by (simp add: demo_lib_def BigEndian_Uint16_def)
  have o: "dataOffset (packet ?pck) < ucast (pck_length (packet ?pck))" by simp
  have dl: "BigEndian_Uint16 (take 2 (drop 8 (?head @ ?body))) = 24"
    by (simp add: BigEndian_Uint16_def)
  have q: "uint (24::16 word) < 65526" "10 + unat (24::16 word) \<le> length (?head @ ?body)"
    by simp_all
  note T = redirect_body_split[OF rd tag(2) p o dl q refl]
  have 1: "redirect_split ?pck (take (unat (24::16 word)) (drop 10 (?head @ ?body))) =
     ?pck\<lparr>redirectAddr := [110, 101, 119, 104, 111, 115, 116, 58, 49, 53, 50, 50],
           reconnectData := [0, 99, 111, 110, 110, 68, 97, 116, 97, 49, 50, 51]\<rparr>"
    using T[THEN conjunct2, THEN conjunct1, rule_format,
        of "[110, 101, 119, 104, 111, 115, 116, 58, 49, 53, 50, 50]"
           "[99, 111, 110, 110, 68, 97, 116, 97, 49, 50, 51]"]
    by simp
  have 2: "readPacket demo_lib ?s =
     Some (Done ((Iface (PRedirect (redirect_split ?pck (take (unat (24::16 word)) (drop 10 (?head @ ?body))))), None), ?s1))"
    using T[THEN conjunct1] by simp
  have 3: "Connect_reply demo_lib ?s1 (Iface (PRedirect
        \<lparr>packet = \<lparr>pck_length = 34, dataOffset = 10, flag = 2\<rparr>,
         redirectAddr = [110, 101, 119, 104, 111, 115, 116, 58, 49, 53, 50, 50],
         reconnectData = [0, 99, 111, 110, 110, 68, 97, 116, 97, 49, 50, 51]\<rparr>)) =
     (Again, ?s1\<lparr>connOption := \<lparr>Host = [110, 101, 119, 104, 111, 115, 116], Port = 1522, Protocol = [],
                       SSL = False, SSLVerify = False,
                       connData = [0, 99, 111, 110, 110, 68, 97, 116, 97, 49, 50, 51]\<rparr>\<rparr>)"
    by (simp add: Connect_reply_def demo_lib_def demo_connected_def demo_session_def NewSession_def demo_opt_def)
  show ?thesis using 2 3 unfolding 1 by simp
qed

subsection \<open>C10: the result of the MARKER case\<close>

text \<open>
  C10. \<^verbatim>\<open>readPacket\<close> reads a MARKER frame \<open>pd\<close>, and its MARKER case runs to the end: the
  marker \<open>m\<close> is a break or a reset marker, the loop that waits for the reset marker ends
  without an error in the session \<open>s2\<close>, the buffers are reset and the marker of type 2 is
  written, the hook of the hash algorithm (if there is one and the connection is reset)
  succeeds, the next frame \<open>pd2\<close> is a DATA packet with the payload \<open>msg # rest\<close>, which
  becomes the in-buffer, and \<^verbatim>\<open>GetByte\<close> reads \<open>msg\<close> from it; when \<open>msg\<close> is 4 the summary is
  read without an error and its return code is 0. Then \<^verbatim>\<open>readPacket\<close> returns the nil
  packet and no error. A \<^verbatim>\<open>read(n)\<close> that had to fetch a packet, and whose \<^verbatim>\<open>readPacket\<close> took
  this path, returns the error "the packet received is not data packet"; the payload
  stays in the in-buffer, with the cursor behind \<open>msg\<close>.
\<close>

theorem marker_reset_returns_nil:
  assumes "readPacketData L s = Some (Done ((pd, None), s1))"
    and "pd ! 4 = MARKER"
    and "newMarkerPacketFromData L pd (Context s1) = Some m"
    and "marker_switch m False False = Some (b, r)"
    and "marker_loop L s1 b r 1 = Some (Done ((r', None), s2))"
    and "writePacket L (ResetBuffer s2) (PMarker (newMarkerPacket L 2 (Context s2))) = Done (None, s3)"
    and "r' \<longrightarrow> HashAlgo (Context s3) = None \<or> HashAlgo (Context s3) = Some None"
    and "readPacketData L s3 = Some (Done ((pd2, None), s4))"
    and "newDataPacketFromData L pd2 (Context s4) = (Some d, None)"
    and "buffer d = msg # rest"
    and "s5 = s4\<lparr>inBuffer := msg # rest, index := 1\<rparr>"
    and "msg = 4 \<longrightarrow> NewSummary L s5 = ((sm, None), s6) \<and> \<not> HasError (s6\<lparr>Summary := sm\<rparr>)"
    and "sfin = (if msg = 4 then s6\<lparr>Summary := sm\<rparr> else s5)"
  shows "readPacket L s = Some (Done ((NilInterface, None), sfin))
     \<and> (wrap64 (index s + n) > int (length (inBuffer s)) \<longrightarrow>
          read L s n = Some (Done ((NilSlice, Some ErrNotDataPacket), sfin)))"
proof -
  have t: "pd ! 4 \<noteq> ACCEPT" "pd ! 4 \<noteq> REFUSE" "pd ! 4 \<noteq> REDIRECT" "pd ! 4 \<noteq> DATA"
    using assms(2) by (simp_all add: MARKER_def ACCEPT_def REFUSE_def REDIRECT_def DATA_def)
  have inst: "marker_install L s3 = Some (Inr (s4\<lparr>inBuffer := msg # rest, index := 0\<rparr>))"
    using assms(8,9,10) by (simp add: marker_install_def)
  have ack: "marker_ack L s2 r' = Some (Inr (s4\<lparr>inBuffer := msg # rest, index := 0\<rparr>))"
    using assms(6,7) inst by (auto simp add: marker_ack_def)
  have rs: "marker_reset L s1 pd = Some (Inr (s4\<lparr>inBuffer := msg # rest, index := 0\<rparr>))"
    using assms(3,4,5) ack by (simp add: marker_reset_def)
  have w: "wrap64 (0 + 1) = 1" by (simp add: wrap64_def)
  have sl: "read_slice (s4\<lparr>inBuffer := msg # rest, index := 0\<rparr>) 1 = Done ((Slice [msg] rest, None), s5)"
    using w by (simp add: read_slice_def assms(11))
  have fin: "marker_finish L s5 msg = Done ((NilInterface, None), sfin)"
    using assms(12,13) by (simp add: marker_finish_def)
  have rp: "readPacket L s = Some (Done ((NilInterface, None), sfin))"
    apply (subst readPacket.simps)
    using assms(1,2) t rs w sl fin by (simp add: marker_after_read_def)
  have rd: "read L s n = Some (Done ((NilSlice, Some ErrNotDataPacket), sfin))"
    if "wrap64 (index s + n) > int (length (inBuffer s))"
    using that rp by (simp add: read_def read_fetched_def)
  show ?thesis using rp rd by blast
qed

text \<open>The theorem on a reset marker that is followed by a DATA frame with the payload
  7, 8, 9.\<close>

theorem marker_reset_returns_nil_witness:
  "readPacket demo_lib (demo_connected
       [([0, 0, 0, 11, 12, 0, 0, 0, 1, 0, 2], None), ([0, 0, 0, 13, 6, 0, 0, 0, 0, 0, 7, 8, 9], None)]) =
     Some (Done ((NilInterface, None),
       (demo_connected [])\<lparr>sendPcks := [PMarker \<lparr>markerType = 1, markerData = 2\<rparr>],
          conn := Some \<lparr>rx = [], tx = [(False, [0, 0, 0, 11, 12, 0, 0, 0, 1, 0, 2])], wres = []\<rparr>,
          inBuffer := [7, 8, 9], index := 1\<rparr>))
   \<and> read demo_lib (demo_connected
       [([0, 0, 0, 11, 12, 0, 0, 0, 1, 0, 2], None), ([0, 0, 0, 13, 6, 0, 0, 0, 0, 0, 7, 8, 9], None)]) 1 =
     Some (Done ((NilSlice, Some ErrNotDataPacket),
       (demo_connected [])\<lparr>sendPcks := [PMarker \<lparr>markerType = 1, markerData = 2\<rparr>],
          conn := Some \<lparr>rx = [], tx = [(False, [0, 0, 0, 11, 12, 0, 0, 0, 1, 0, 2])], wres = []\<rparr>,
          inBuffer := [7, 8, 9], index := 1\<rparr>))"
proof -
  let ?f1 = "[0, 0, 0, 11, 12, 0, 0, 0, 1, 0, 2] :: byte list"
  let ?f2 = "[0, 0, 0, 13, 6, 0, 0, 0, 0, 0, 7, 8, 9] :: byte list"
  let ?s = "demo_connected [(?f1, None), (?f2, None)]"
  let ?c = "\<lparr>rx = [([0, 0, 0, 11, 12, 0, 0, 0] @ [1, 0, 2] @ [], None), (?f2, None)], tx = [], wres = []\<rparr>"
  let ?s1 = "demo_connected [(?f2, None)]"
  let ?c3 = "\<lparr>rx = [([0, 0, 0, 13, 6, 0, 0, 0] @ [0, 0, 7, 8, 9] @ [], None)],
              tx = [(False, [0, 0, 0, 11, 12, 0, 0, 0, 1, 0, 2])], wres = []\<rparr>"
  let ?s3 = "(demo_connected [])\<lparr>sendPcks := [PMarker \<lparr>markerType = 1, markerData = 2\<rparr>], conn := Some ?c3\<rparr>"
  let ?s4 = "(demo_connected [])\<lparr>sendPcks := [PMarker \<lparr>markerType = 1, markerData = 2\<rparr>],
          conn := Some \<lparr>rx = [], tx = [(False, [0, 0, 0, 11, 12, 0, 0, 0, 1, 0, 2])], wres = []\<rparr>\<rparr>"
  have c: "conn ?s = Some ?c" by (simp add: demo_connected_def)
  have ctx: "Context ?s = demo_ctx" "Context ?s1 = demo_ctx" "Context ?s3 = demo_ctx" "Context ?s4 = demo_ctx"
    by (simp_all add: demo_connected_def demo_session_def NewSession_def)
  have l1: "length [1, 0, 2 :: byte] = unat (declared_length (Context ?s) [0, 0, 0, 11, 12, 0, 0, 0] - 8)"
    unfolding ctx by code_simp
  have t1: "[0, 0, 0, 11, 12, 0, 0, 0] ! 4 \<noteq> RESEND" "?f1 ! 4 = MARKER"
    by (simp_all add: RESEND_def MARKER_def)
  have 1: "readPacketData demo_lib ?s = Some (Done ((?f1, None), ?s1))"
    using readPacketData_frame[OF c _ _ l1 t1(1), where L = demo_lib]
    by (simp add: after_frame_def demo_connected_def)
  have 3: "newMarkerPacketFromData demo_lib ?f1 (Context ?s1) = Some \<lparr>markerType = 1, markerData = 2\<rparr>"
    by (simp add: demo_lib_def)
  have 4: "marker_switch \<lparr>markerType = 1, markerData = 2\<rparr> False False = Some (False, True)"
    by (simp add: marker_switch_def)
  have 5: "marker_loop demo_lib ?s1 False True 1 = Some (Done ((True, None), ?s1))"
    by (rule marker_loop_done) simp
  have b: "bytes demo_lib (PMarker \<lparr>markerType = 1, markerData = 2\<rparr>) demo_ctx = [0, 0, 0, 11, 12, 0, 0, 0, 1, 0, 2]"
    by code_simp
  have 6: "writePacket demo_lib (ResetBuffer ?s1) (PMarker (newMarkerPacket demo_lib 2 (Context ?s1))) = Done (None, ?s3)"
    unfolding ctx using b
    by (simp add: writePacket_def ResetBuffer_def buf_Reset_def conn_Write_def demo_lib_def
          demo_connected_def demo_session_def NewSession_def)
  have 7: "True \<longrightarrow> HashAlgo (Context ?s3) = None \<or> HashAlgo (Context ?s3) = Some None"
    unfolding ctx by (simp add: demo_ctx_def)
  have c3: "conn ?s3 = Some ?c3" by simp
  have l2: "length [0, 0, 7, 8, 9 :: byte] = unat (declared_length (Context ?s3) [0, 0, 0, 13, 6, 0, 0, 0] - 8)"
    unfolding ctx by code_simp
  have t2: "[0, 0, 0, 13, 6, 0, 0, 0] ! 4 \<noteq> RESEND" by (simp add: RESEND_def)
  have 8: "readPacketData demo_lib ?s3 = Some (Done ((?f2, None), ?s4))"
    using readPacketData_frame[OF c3 _ _ l2 t2, where L = demo_lib]
    by (simp add: after_frame_def)
  have 9: "newDataPacketFromData demo_lib ?f2 (Context ?s4) = (Some \<lparr>buffer = [7, 8, 9]\<rparr>, None)"
    by (simp add: demo_lib_def)
  have 12: "(7::byte) = 4 \<longrightarrow> NewSummary demo_lib (?s4\<lparr>inBuffer := [7, 8, 9], index := 1\<rparr>) = ((None, None), ?s4)
      \<and> \<not> HasError (?s4\<lparr>Summary := None\<rparr>)"
    by simp
  have i: "wrap64 (index ?s + 1) > int (length (inBuffer ?s))"
    by (simp add: wrap64_def demo_connected_def demo_session_def NewSession_def)
  show ?thesis
    using marker_reset_returns_nil[OF 1 t1(2) 3 4 5 6 7 8 9 _ refl 12 refl, where n = 1] i
    by simp
qed

subsection \<open>C9: \<^verbatim>\<open>GetString\<close>\<close>

text \<open>
  C9. \<^verbatim>\<open>GetString(length)\<close> evaluates \<^verbatim>\<open>ret[:length]\<close> on the slice \<open>ret\<close> that \<^verbatim>\<open>GetClr\<close> returns.
  When \<open>ret\<close> has at least \<open>len\<close> bytes, the result is its first \<open>len\<close> bytes, with the
  error of \<^verbatim>\<open>GetClr\<close>. When \<open>ret\<close> is nil and \<open>len\<close> is not 0, the slice expression panics; this
  is so for a CLR whose length byte is 0 or 255. When the CLR is in the short form, its
  \<open>sz\<close> bytes \<open>clr\<close> being followed by the bytes \<open>post\<close> in the in-buffer, \<open>ret\<close> is a window of
  the in-buffer: for a \<open>len\<close> above \<open>sz\<close> that does not reach behind \<open>post\<close>, the result is
  \<open>clr\<close> followed by the first \<open>len - sz\<close> bytes of \<open>post\<close>, and there is no panic.
\<close>

theorem GetString_slice:
  "(GetClr L s = Some (Done ((ret, err), s1)) \<and> 0 \<le> len \<and> len \<le> int (length (bytes_of ret)) \<longrightarrow>
      GetString L s len = Some (Done ((take (nat len) (bytes_of ret), err), s1)))
 \<and> (GetClr L s = Some (Done ((NilSlice, err), s1)) \<and> len \<noteq> 0 \<longrightarrow>
      GetString L s len = Some (Abort PanicSliceBounds))
 \<and> (inBuffer s = pre @ sz # post \<and> index s = int (length pre) \<and> length (inBuffer s) < 2 ^ 63 \<and>
      (sz = 0 \<or> sz = 0xFF) \<and> len \<noteq> 0 \<longrightarrow>
      GetString L s len = Some (Abort PanicSliceBounds))
 \<and> (inBuffer s = pre @ sz # clr @ post \<and> index s = int (length pre) \<and> length (inBuffer s) < 2 ^ 63 \<and>
      sz \<noteq> 0 \<and> sz \<noteq> 0xFE \<and> sz \<noteq> 0xFF \<and> unat sz = length clr \<and>
      int (length clr) < len \<and> len \<le> int (length clr + length post) \<longrightarrow>
      GetClr L s = Some (Done ((Slice clr post, None), s\<lparr>index := int (length pre) + 1 + int (length clr)\<rparr>)) \<and>
      GetString L s len =
        Some (Done ((clr @ take (nat len - length clr) post, None),
                    s\<lparr>index := int (length pre) + 1 + int (length clr)\<rparr>)))"
proof -
  have 1: "GetString L s len = Some (Done ((take (nat len) (bytes_of ret), err), s1))"
    if "GetClr L s = Some (Done ((ret, err), s1)) \<and> 0 \<le> len \<and> len \<le> int (length (bytes_of ret))"
    using that by (cases ret) (auto simp add: GetString_def)
  have 2: "GetString L s len = Some (Abort PanicSliceBounds)"
    if "GetClr L s = Some (Done ((NilSlice, err), s1)) \<and> len \<noteq> 0" for err s1
    using that by (simp add: GetString_def)
  have 3: "GetString L s len = Some (Abort PanicSliceBounds)"
    if "inBuffer s = pre @ sz # post \<and> index s = int (length pre) \<and> length (inBuffer s) < 2 ^ 63 \<and>
      (sz = 0 \<or> sz = 0xFF) \<and> len \<noteq> 0"
    using that GetClr_null[of s pre sz post L] 2 by blast
  have 4: "GetClr L s = Some (Done ((Slice clr post, None), s\<lparr>index := int (length pre) + 1 + int (length clr)\<rparr>)) \<and>
      GetString L s len =
        Some (Done ((clr @ take (nat len - length clr) post, None),
                    s\<lparr>index := int (length pre) + 1 + int (length clr)\<rparr>))"
    if h: "inBuffer s = pre @ sz # clr @ post \<and> index s = int (length pre) \<and> length (inBuffer s) < 2 ^ 63 \<and>
      sz \<noteq> 0 \<and> sz \<noteq> 0xFE \<and> sz \<noteq> 0xFF \<and> unat sz = length clr \<and>
      int (length clr) < len \<and> len \<le> int (length clr + length post)"
  proof -
    have g: "GetClr L s = Some (Done ((Slice clr post, None), s\<lparr>index := int (length pre) + 1 + int (length clr)\<rparr>))"
      using h GetClr_short[of s pre sz clr post L] by blast
    have n: "length clr \<le> nat len" "0 \<le> len" using h by linarith+
    have "reslice_to (Slice clr post) len = Done (clr @ take (nat len - length clr) post)"
      using h n by simp
    then show ?thesis using g by (simp add: GetString_def)
  qed
  show ?thesis using 1 2 3 4 by blast
qed

text \<open>The three cases on the in-buffers 3, a, b, c, d and 0, a.\<close>

theorem GetString_slice_witness:
  "GetString demo_lib (seed demo_session [3, 97, 98, 99, 100]) 2 =
     Some (Done (([97, 98], None), (seed demo_session [3, 97, 98, 99, 100])\<lparr>index := 4\<rparr>))
   \<and> GetString demo_lib (seed demo_session [0, 97]) 1 = Some (Abort PanicSliceBounds)
   \<and> GetString demo_lib (seed demo_session [3, 97, 98, 99, 100]) 4 =
     Some (Done (([97, 98, 99, 100], None), (seed demo_session [3, 97, 98, 99, 100])\<lparr>index := 4\<rparr>))"
proof -
  let ?s = "seed demo_session [3, 97, 98, 99, 100]"
  let ?z = "seed demo_session [0, 97]"
  have i: "inBuffer ?s = [] @ 3 # [97, 98, 99] @ [100]" "index ?s = int (length ([]::byte list))"
    "length (inBuffer ?s) < 2 ^ 63"
    by (simp_all add: seed_def)
  have u: "unat (3::byte) = length [97, 98, 99 :: byte]" by simp
  have g: "GetClr demo_lib ?s = Some (Done ((Slice [97, 98, 99] [100], None), ?s\<lparr>index := 4\<rparr>))"
    using GetClr_short[OF i _ _ _ u, of demo_lib] by simp
  have 1: "GetString demo_lib ?s 2 = Some (Done (([97, 98], None), ?s\<lparr>index := 4\<rparr>))"
    using GetString_slice[of demo_lib ?s "Slice [97, 98, 99] [100]" None "?s\<lparr>index := 4\<rparr>" 2] g
    by simp
  have z: "inBuffer ?z = [] @ 0 # [97]" "index ?z = int (length ([]::byte list))"
    "length (inBuffer ?z) < 2 ^ 63"
    by (simp_all add: seed_def)
  have 2: "GetString demo_lib ?z 1 = Some (Abort PanicSliceBounds)"
    using GetString_slice[of demo_lib ?z _ _ _ 1 "[]" 0 "[97]"] z by simp
  have 3: "GetString demo_lib ?s 4 = Some (Done (([97, 98, 99, 100], None), ?s\<lparr>index := 4\<rparr>))"
    using GetString_slice[of demo_lib ?s _ _ _ 4 "[]" 3 "[100]" "[97, 98, 99]"] i u by simp
  show ?thesis using 1 2 3 by simp
qed

text \<open>The CLR is \<^verbatim>\<open>ab\<close>, shorter than the 4 bytes asked for, and \<^verbatim>\<open>GetString(4)\<close> returns
  \<^verbatim>\<open>abcd\<close>.\<close>

theorem GetString_slice_counterexample:
  "GetClr demo_lib (seed demo_session [2, 97, 98, 99, 100]) =
     Some (Done ((Slice [97, 98] [99, 100], None), (seed demo_session [2, 97, 98, 99, 100])\<lparr>index := 3\<rparr>))
   \<and> GetString demo_lib (seed demo_session [2, 97, 98, 99, 100]) 4 =
     Some (Done (([97, 98, 99, 100], None), (seed demo_session [2, 97, 98, 99, 100])\<lparr>index := 3\<rparr>))"
  by code_simp

end
